theory Spec2Isabelle
  imports Main "HOL-Library.Word"
begin

unbundle bit_operations_syntax

section \<open>Python string primitives used by the portal models\<close>

text \<open>\<open>str.lower()\<close> on the ASCII names the validators admit.\<close>

definition lower_char :: "char \<Rightarrow> char" where
  "lower_char c =
     (case map_of (zip ''ABCDEFGHIJKLMNOPQRSTUVWXYZ'' ''abcdefghijklmnopqrstuvwxyz'') c of
        Some l \<Rightarrow> l
      | None \<Rightarrow> c)"

definition lower :: "string \<Rightarrow> string" where
  "lower s = map lower_char s"

text \<open>\<open>s.split(sep)\<close> with a one-character separator: always at least one piece.\<close>

fun split_sep :: "char \<Rightarrow> string \<Rightarrow> string list" where
  "split_sep sep [] = [[]]"
| "split_sep sep (c # cs) =
     (let r = split_sep sep cs in if c = sep then [] # r else (c # hd r) # tl r)"

text \<open>\<open>s.split(sep, 1)\<close>: cut at the first separator only.\<close>

definition split1 :: "char \<Rightarrow> string \<Rightarrow> string list" where
  "split1 sep s =
     (if sep \<in> set s
      then [takeWhile (\<lambda>c. c \<noteq> sep) s, tl (dropWhile (\<lambda>c. c \<noteq> sep) s)]
      else [s])"

text \<open>\<open>sep.join(xs)\<close>.\<close>

fun join :: "string \<Rightarrow> string list \<Rightarrow> string" where
  "join sep [] = []"
| "join sep [x] = x"
| "join sep (x # y # ys) = x @ sep @ join sep (y # ys)"

definition digit_char :: "nat \<Rightarrow> char" where
  "digit_char d = ''0123456789abcdef'' ! d"

text \<open>\<open>str(n)\<close> for a non-negative integer.\<close>

fun str_nat :: "nat \<Rightarrow> string" where
  "str_nat n = (if n < 10 then [digit_char n] else str_nat (n div 10) @ [digit_char (n mod 10)])"

declare str_nat.simps [simp del]

section \<open>Addresses (Python's \<open>ipaddress\<close> objects)\<close>

datatype ipaddr = IPv4Address "32 word" | IPv6Address "128 word"

definition version :: "ipaddr \<Rightarrow> nat" where
  "version ip = (case ip of IPv4Address _ \<Rightarrow> 4 | IPv6Address _ \<Rightarrow> 6)"

text \<open>\<open>ip.to_bytes(4, 'big')\<close>.\<close>

definition octets :: "32 word \<Rightarrow> nat list" where
  "octets a = map (\<lambda>i. unat (drop_bit i a AND 255)) [24, 16, 8, 0]"

text \<open>\<open>str(IPv4Address)\<close>: the dotted quad.\<close>

definition str_ipv4 :: "32 word \<Rightarrow> string" where
  "str_ipv4 a = join ''.'' (map str_nat (octets a))"

text \<open>\<open>'%032x' % ip\<close>: the 32 nibbles, most significant first.\<close>

definition hex_str32 :: "128 word \<Rightarrow> string" where
  "hex_str32 a = map (\<lambda>i. digit_char (unat (drop_bit (4 * i) a AND 15))) (rev [0..<32])"

text \<open>\<open>IPv6Address.exploded\<close>: eight groups of four nibbles joined by colons.\<close>

definition exploded :: "128 word \<Rightarrow> string" where
  "exploded a = join '':'' (map (\<lambda>x. take 4 (drop x (hex_str32 a))) (map (\<lambda>k. 4 * k) [0..<8]))"

text \<open>\<open>IPAddress._generate_ptr(domain)\<close>.\<close>

definition generate_ptr :: "ipaddr \<Rightarrow> bool \<Rightarrow> string" where
  "generate_ptr ip domain =
     (if version ip = 6 then
        (case ip of IPv6Address a \<Rightarrow>
           (let r = rev (filter (\<lambda>c. c \<noteq> CHR '':'') (exploded a))
            in join ''.'' (map (\<lambda>c. [c]) (if domain then drop 20 r else r)) @ ''.ip6.arpa'')
         | IPv4Address a \<Rightarrow> [])
      else
        (case ip of IPv4Address a \<Rightarrow>
           (let r = rev (split_sep CHR ''.'' (str_ipv4 a))
            in join ''.'' (if domain then drop 1 r else r) @ ''.in-addr.arpa'')
         | IPv6Address a \<Rightarrow> []))"


text \<open>\<open>'%x' % n\<close>: lower-case hexadecimal without leading zeros.\<close>

fun hex_nat :: "nat \<Rightarrow> string" where
  "hex_nat n = (if n < 16 then [digit_char n] else hex_nat (n div 16) @ [digit_char (n mod 16)])"

declare hex_nat.simps [simp del]

text \<open>\<open>int(s, 16)\<close> on a string of hexadecimal digits.\<close>

definition hex_val :: "char \<Rightarrow> nat" where
  "hex_val c =
     (case map_of (zip ''0123456789abcdefABCDEF''
                       [0, 1, 2, 3, 4, 5, 6, 7, 8, 9, 10, 11, 12, 13, 14, 15, 10, 11, 12, 13, 14, 15]) c of
        Some v \<Rightarrow> v
      | None \<Rightarrow> 0)"

definition int16 :: "string \<Rightarrow> nat" where
  "int16 s = foldl (\<lambda>n c. 16 * n + hex_val c) 0 s"

text \<open>
  The eight 16-bit groups of an IPv6 address, most significant first, read off the
  32-nibble string as \<open>_string_from_ip_int\<close> does: \<open>int(hex_str[x:x+4], 16)\<close>.
\<close>

definition hextets :: "128 word \<Rightarrow> nat list" where
  "hextets a = map (\<lambda>x. int16 (take 4 (drop x (hex_str32 a)))) (map (\<lambda>k. 4 * k) [0..<8])"

text \<open>
  The scan of \<open>_compress_hextets\<close>: the state is
  \<open>(best_doublecolon_start, best_doublecolon_len, doublecolon_start, doublecolon_len)\<close>,
  with \<open>-1\<close> for "no run", as in the library.
\<close>

fun compress_scan :: "string list \<Rightarrow> nat \<Rightarrow> int \<times> nat \<times> int \<times> nat \<Rightarrow> int \<times> nat \<times> int \<times> nat" where
  "compress_scan [] index st = st"
| "compress_scan (h # hs) index (bs, bl, ds, dl) =
     (if h = ''0'' then
        (let dl' = dl + 1; ds' = (if ds = - 1 then int index else ds)
         in if dl' > bl then compress_scan hs (index + 1) (ds', dl', ds', dl')
            else compress_scan hs (index + 1) (bs, bl, ds', dl'))
      else compress_scan hs (index + 1) (bs, bl, - 1, 0))"

definition compress_hextets :: "string list \<Rightarrow> string list" where
  "compress_hextets hs =
     (case compress_scan hs 0 (- 1, 0, - 1, 0) of (bs, bl, _, _) \<Rightarrow>
        if bl > 1 then
          (let b = nat bs; e = b + bl;
               h1 = (if e = length hs then hs @ [[]] else hs);
               h2 = take b h1 @ [[]] @ drop e h1
           in if b = 0 then [] # h2 else h2)
        else hs)"

text \<open>\<open>str(IPv6Address)\<close>: the compressed form.\<close>

definition str_ipv6 :: "128 word \<Rightarrow> string" where
  "str_ipv6 a = join '':'' (compress_hextets (map hex_nat (hextets a)))"

definition str_ip :: "ipaddr \<Rightarrow> string" where
  "str_ip x = (case x of IPv4Address a \<Rightarrow> str_ipv4 a | IPv6Address a \<Rightarrow> str_ipv6 a)"

section \<open>Tables, model instances and the state\<close>

datatype error = DoesNotExist | MultipleObjectsReturned | IntegrityError | IndexError | ValueError

text \<open>
  Modelled from the spec: the DNS record store (\<open>dns.models.Domain\<close> and
  \<open>dns.models.Record\<close>) is an external collaborator, a table of zones and a table of
  records with the fields the portal reads and writes: zone, name, type, content and the
  authoritative flag. Rows carry the primary key the ORM gives them.
\<close>

record domain_row =
  d_id :: nat
  d_name :: string

record dns_record =
  r_id :: nat
  r_domain :: nat
  r_name :: string
  r_type :: string
  r_content :: string
  r_auth :: bool

text \<open>The fields of \<open>Host\<close> and \<open>IPAddress\<close> that the DNS logic reads.\<close>

record host_row =
  hr_pk :: nat
  hr_name :: string

record ipaddress_row =
  ir_pk :: nat
  ir_host_id :: nat
  ir_interface :: "string option"
  ir_ip :: ipaddr
  ir_auto_dns :: "bool option"
  ir_primary :: bool

text \<open>In-memory model instances: \<open>pk\<close> is \<open>None\<close> until the instance is stored.\<close>

record Host =
  h_pk :: "nat option"
  h_name :: string

record IPAddress =
  pk :: "nat option"
  host :: Host
  interface :: "string option"
  ip :: ipaddr
  auto_dns :: "bool option"
  primary :: bool

text \<open>
  The database. \<open>history\<close> is a log of the successive contents of the record table, one
  entry for each write statement executed on it.
\<close>

record state =
  hosts :: "host_row list"
  ipaddresses :: "ipaddress_row list"
  domains :: "domain_row list"
  records :: "dns_record list"
  history :: "dns_record list list"

section \<open>Exceptions and state threading\<close>

type_synonym 'a M = "state \<Rightarrow> (error + 'a) \<times> state"

definition returnM :: "'a \<Rightarrow> 'a M" where
  "returnM x s = (Inr x, s)"

definition raiseM :: "error \<Rightarrow> 'a M" where
  "raiseM e s = (Inl e, s)"

definition bindM :: "'a M \<Rightarrow> ('a \<Rightarrow> 'b M) \<Rightarrow> 'b M" where
  "bindM m f s = (case m s of (Inl e, s') \<Rightarrow> (Inl e, s') | (Inr x, s') \<Rightarrow> f x s')"

definition thenM :: "unit M \<Rightarrow> 'b M \<Rightarrow> 'b M" where
  "thenM m k = bindM m (\<lambda>_. k)"

text \<open>A \<open>for\<close> loop whose body may raise.\<close>

fun forM :: "'a list \<Rightarrow> ('a \<Rightarrow> unit M) \<Rightarrow> unit M" where
  "forM [] f = returnM ()"
| "forM (x # xs) f = thenM (f x) (forM xs f)"

text \<open>\<open>@transaction.atomic\<close>: an exception leaving the block rolls the database back.\<close>

definition atomic :: "'a M \<Rightarrow> 'a M" where
  "atomic m s = (case m s of (Inl e, s') \<Rightarrow> (Inl e, s) | (Inr x, s') \<Rightarrow> (Inr x, s'))"

section \<open>The ORM operations the models call\<close>

text \<open>Python truthiness of the tested fields.\<close>

definition truthy_str :: "string option \<Rightarrow> bool" where
  "truthy_str x = (case x of None \<Rightarrow> False | Some s \<Rightarrow> s \<noteq> [])"

definition truthy_bool :: "bool option \<Rightarrow> bool" where
  "truthy_bool x = (case x of None \<Rightarrow> False | Some b \<Rightarrow> b)"

definition truthy_pk :: "nat option \<Rightarrow> bool" where
  "truthy_pk x = (case x of None \<Rightarrow> False | Some n \<Rightarrow> n \<noteq> 0)"

text \<open>The \<open>iexact\<close> lookup.\<close>

definition iexact :: "string \<Rightarrow> string \<Rightarrow> bool" where
  "iexact a b = (lower a = lower b)"

text \<open>\<open>Model.objects.get\<close>: exactly one row, or an exception.\<close>

definition get_one :: "'a list \<Rightarrow> 'a M" where
  "get_one xs =
     (case xs of [] \<Rightarrow> raiseM DoesNotExist
      | [x] \<Rightarrow> returnM x
      | _ # _ # _ \<Rightarrow> raiseM MultipleObjectsReturned)"

definition Domain_get :: "string \<Rightarrow> domain_row M" where
  "Domain_get zone s = get_one (filter (\<lambda>d. d_name d = zone) (domains s)) s"

definition Host_get :: "nat \<Rightarrow> host_row M" where
  "Host_get p s = get_one (filter (\<lambda>h. hr_pk h = p) (hosts s)) s"

definition IPAddress_get :: "nat \<Rightarrow> ipaddress_row M" where
  "IPAddress_get p s = get_one (filter (\<lambda>a. ir_pk a = p) (ipaddresses s)) s"

definition Record_get :: "(dns_record \<Rightarrow> bool) \<Rightarrow> dns_record M" where
  "Record_get lookup s = get_one (filter lookup (records s)) s"

text \<open>The key a new row gets.\<close>

definition fresh :: "nat list \<Rightarrow> nat" where
  "fresh ks = Suc (fold max ks 0)"

definition write_records :: "dns_record list \<Rightarrow> state \<Rightarrow> state" where
  "write_records rs s = s\<lparr>records := rs, history := history s @ [rs]\<rparr>"

text \<open>\<open>Record.objects.filter(...).delete()\<close>.\<close>

definition Record_filter_delete :: "(dns_record \<Rightarrow> bool) \<Rightarrow> unit M" where
  "Record_filter_delete P s = (Inr (), write_records (filter (\<lambda>r. \<not> P r) (records s)) s)"

definition Record_create :: "dns_record \<Rightarrow> dns_record M" where
  "Record_create r s =
     (let r' = r\<lparr>r_id := fresh (map r_id (records s))\<rparr>
      in (Inr r', write_records (records s @ [r']) s))"

text \<open>
  \<open>Record.objects.get_or_create(**lookup, defaults=...)\<close>: the row the lookup finds, or a
  new row; more than one match raises.
\<close>

definition Record_get_or_create :: "(dns_record \<Rightarrow> bool) \<Rightarrow> dns_record \<Rightarrow> (dns_record \<times> bool) M" where
  "Record_get_or_create lookup new s =
     (case Record_get lookup s of
        (Inr r, s') \<Rightarrow> (Inr (r, False), s')
      | (Inl DoesNotExist, s') \<Rightarrow> bindM (Record_create new) (\<lambda>r. returnM (r, True)) s'
      | (Inl e, s') \<Rightarrow> (Inl e, s'))"

text \<open>\<open>record.save()\<close> of a stored row: an update by primary key.\<close>

definition Record_save :: "dns_record \<Rightarrow> unit M" where
  "Record_save r s =
     (Inr (), write_records
        (if r_id r \<in> set (map r_id (records s))
         then map (\<lambda>x. if r_id x = r_id r then r else x) (records s)
         else records s @ [r]) s)"


text \<open>\<open>DELETE\<close> of the assignment row with a given key.\<close>

definition delete_ipaddress_row :: "nat \<Rightarrow> unit M" where
  "delete_ipaddress_row p s =
     (Inr (), s\<lparr>ipaddresses := filter (\<lambda>a. ir_pk a \<noteq> p) (ipaddresses s)\<rparr>)"

text \<open>
  \<open>super(IPAddress, self).save()\<close>: an update when the key is set and stored, an insert
  otherwise. The host must be stored (\<open>ForeignKey\<close>) and the address is \<open>unique\<close>.
\<close>

definition IPAddress_base_save :: "IPAddress \<Rightarrow> unit M" where
  "IPAddress_base_save self s =
     (case h_pk (host self) of
        None \<Rightarrow> (Inl ValueError, s)
      | Some hid \<Rightarrow>
          (let p = (case pk self of Some p \<Rightarrow> p | None \<Rightarrow> fresh (map ir_pk (ipaddresses s)));
               row = \<lparr>ir_pk = p, ir_host_id = hid, ir_interface = interface self,
                      ir_ip = ip self, ir_auto_dns = auto_dns self, ir_primary = primary self\<rparr>
           in if hid \<notin> set (map hr_pk (hosts s)) then (Inl IntegrityError, s)
              else if \<exists>a \<in> set (ipaddresses s). ir_ip a = ip self \<and> ir_pk a \<noteq> p
                then (Inl IntegrityError, s)
              else if p \<in> set (map ir_pk (ipaddresses s))
                then (Inr (), s\<lparr>ipaddresses :=
                        map (\<lambda>a. if ir_pk a = p then row else a) (ipaddresses s)\<rparr>)
              else (Inr (), s\<lparr>ipaddresses := ipaddresses s @ [row]\<rparr>)))"

text \<open>\<open>super(Host, self).save()\<close>; the host name is \<open>unique\<close>.\<close>

definition Host_base_save :: "Host \<Rightarrow> unit M" where
  "Host_base_save self s =
     (let p = (case h_pk self of Some p \<Rightarrow> p | None \<Rightarrow> fresh (map hr_pk (hosts s)));
          row = \<lparr>hr_pk = p, hr_name = h_name self\<rparr>
      in if \<exists>h \<in> set (hosts s). hr_name h = h_name self \<and> hr_pk h \<noteq> p
           then (Inl IntegrityError, s)
         else if p \<in> set (map hr_pk (hosts s))
           then (Inr (), s\<lparr>hosts := map (\<lambda>h. if hr_pk h = p then row else h) (hosts s)\<rparr>)
         else (Inr (), s\<lparr>hosts := hosts s @ [row]\<rparr>))"

text \<open>
  \<open>host.ipaddresses.all()\<close>: the assignments of the host, each with the host instance
  at hand as its \<open>host\<close>, in \<open>Meta.ordering = ['ip']\<close> order (IPv4 before IPv6, then by
  value).
\<close>

definition ip_key :: "ipaddr \<Rightarrow> nat" where
  "ip_key x = (case x of IPv4Address a \<Rightarrow> unat a | IPv6Address a \<Rightarrow> 2 ^ 32 + unat a)"

definition instance_of_row :: "Host \<Rightarrow> ipaddress_row \<Rightarrow> IPAddress" where
  "instance_of_row h a =
     \<lparr>pk = Some (ir_pk a), host = h, interface = ir_interface a, ip = ir_ip a,
      auto_dns = ir_auto_dns a, primary = ir_primary a\<rparr>"

definition Host_ipaddresses :: "Host \<Rightarrow> IPAddress list M" where
  "Host_ipaddresses self s =
     (case h_pk self of
        None \<Rightarrow> (Inl ValueError, s)
      | Some p \<Rightarrow>
          (Inr (map (instance_of_row self)
                  (sort_key (\<lambda>a. ip_key (ir_ip a))
                     (filter (\<lambda>a. ir_host_id a = p) (ipaddresses s)))), s))"

section \<open>The models\<close>

text \<open>\<open>Host.fqdn\<close> and \<open>IPAddress.fqdn\<close>, with \<open>ROOT_DOMAIN\<close> as a parameter.\<close>

definition Host_fqdn :: "string \<Rightarrow> string \<Rightarrow> string" where
  "Host_fqdn root nm = nm @ ''.'' @ root"

definition IPAddress_fqdn :: "string \<Rightarrow> string option \<Rightarrow> string \<Rightarrow> string" where
  "IPAddress_fqdn root iface nm =
     (if truthy_str iface then the iface @ ''.'' @ nm @ ''.'' @ root else nm @ ''.'' @ root)"

text \<open>The three filters of \<open>IPAddress._remove_dns\<close>, for the stored row and its host.\<close>

definition forward_filter :: "string \<Rightarrow> ipaddress_row \<Rightarrow> host_row \<Rightarrow> dns_record \<Rightarrow> bool" where
  "forward_filter root orig h r =
     (iexact (r_name r) (IPAddress_fqdn root (ir_interface orig) (hr_name h))
      \<and> r_type r \<in> {''A'', ''AAAA''}
      \<and> r_content r = str_ip (ir_ip orig))"

definition cname_filter :: "string \<Rightarrow> ipaddress_row \<Rightarrow> host_row \<Rightarrow> dns_record \<Rightarrow> bool" where
  "cname_filter root orig h r =
     (iexact (r_name r) (Host_fqdn root (hr_name h))
      \<and> r_type r = ''CNAME''
      \<and> iexact (r_content r) (IPAddress_fqdn root (ir_interface orig) (hr_name h)))"

definition ptr_filter :: "string \<Rightarrow> ipaddress_row \<Rightarrow> host_row \<Rightarrow> dns_record \<Rightarrow> bool" where
  "ptr_filter root orig h r =
     (r_name r = generate_ptr (ir_ip orig) False
      \<and> r_type r = ''PTR''
      \<and> iexact (r_content r) (IPAddress_fqdn root (ir_interface orig) (hr_name h)))"

text \<open>\<open>IPAddress._remove_dns\<close>.\<close>

definition remove_dns :: "string \<Rightarrow> IPAddress \<Rightarrow> unit M" where
  "remove_dns root self =
     (case pk self of
        None \<Rightarrow> returnM ()
      | Some p \<Rightarrow>
          bindM (IPAddress_get p) (\<lambda>orig.
          bindM (Host_get (ir_host_id orig)) (\<lambda>h.
            thenM (Record_filter_delete (forward_filter root orig h))
           (thenM (if ir_primary orig then Record_filter_delete (cname_filter root orig h)
                   else returnM ())
                  (Record_filter_delete (ptr_filter root orig h))))))"

text \<open>\<open>IPAddress._add_dns\<close>, in its four parts: rename check, forward record, PTR, CNAME.\<close>

definition self_fqdn :: "string \<Rightarrow> IPAddress \<Rightarrow> string" where
  "self_fqdn root self = IPAddress_fqdn root (interface self) (h_name (host self))"

definition add_rename_check :: "string \<Rightarrow> IPAddress \<Rightarrow> unit M" where
  "add_rename_check root self =
     (if truthy_pk (pk self) then
        bindM (IPAddress_get (the (pk self))) (\<lambda>orig.
        bindM (Host_get (ir_host_id orig)) (\<lambda>h.
          if lower (IPAddress_fqdn root (ir_interface orig) (hr_name h)) \<noteq> lower (self_fqdn root self)
          then remove_dns root self else returnM ()))
      else returnM ())"

definition forward_record :: "string \<Rightarrow> IPAddress \<Rightarrow> domain_row \<Rightarrow> dns_record" where
  "forward_record root self d =
     \<lparr>r_id = 0, r_domain = d_id d, r_name = lower (self_fqdn root self),
      r_type = (if version (ip self) = 6 then ''AAAA'' else ''A''),
      r_content = str_ip (ip self), r_auth = True\<rparr>"

definition add_forward :: "string \<Rightarrow> IPAddress \<Rightarrow> unit M" where
  "add_forward root self =
     bindM (Domain_get root) (\<lambda>d.
     bindM (Record_get_or_create
              (\<lambda>r. r_domain r = d_id d \<and> r_name r = lower (self_fqdn root self)
                  \<and> r_type r = (if version (ip self) = 6 then ''AAAA'' else ''A'')
                  \<and> r_content r = str_ip (ip self))
              (forward_record root self d))
           (\<lambda>(new_a, created). Record_save new_a))"

text \<open>
  The zone of the PTR record: the boundary name, then the name with one more leading
  label removed; \<open>None\<close> when neither is a zone.
\<close>

definition find_ptr_zone :: "IPAddress \<Rightarrow> domain_row option M" where
  "find_ptr_zone self s =
     (let zone = generate_ptr (ip self) True
      in case Domain_get zone s of
           (Inr d, s') \<Rightarrow> (Inr (Some d), s')
         | (Inl DoesNotExist, s') \<Rightarrow>
             (case split1 CHR ''.'' zone of
                _ # zone' # _ \<Rightarrow>
                  (case Domain_get zone' s' of
                     (Inr d, s'') \<Rightarrow> (Inr (Some d), s'')
                   | (Inl DoesNotExist, s'') \<Rightarrow> (Inr None, s'')
                   | (Inl e, s'') \<Rightarrow> (Inl e, s''))
              | _ \<Rightarrow> (Inl IndexError, s'))
         | (Inl e, s') \<Rightarrow> (Inl e, s'))"

definition ptr_record :: "string \<Rightarrow> IPAddress \<Rightarrow> domain_row \<Rightarrow> dns_record" where
  "ptr_record root self d =
     \<lparr>r_id = 0, r_domain = d_id d, r_name = generate_ptr (ip self) False,
      r_type = ''PTR'', r_content = lower (self_fqdn root self), r_auth = True\<rparr>"

definition add_ptr :: "string \<Rightarrow> IPAddress \<Rightarrow> unit M" where
  "add_ptr root self =
     bindM (find_ptr_zone self) (\<lambda>dom.
       case dom of
         None \<Rightarrow> returnM ()
       | Some d \<Rightarrow>
           bindM (Record_get_or_create
                    (\<lambda>r. r_domain r = d_id d \<and> r_name r = generate_ptr (ip self) False
                        \<and> r_type r = ''PTR'')
                    (ptr_record root self d))
                 (\<lambda>(new_ptr, created).
                    Record_save (if \<not> created
                                 then new_ptr\<lparr>r_content := lower (self_fqdn root self)\<rparr>
                                 else new_ptr)))"

definition cname_record :: "string \<Rightarrow> IPAddress \<Rightarrow> domain_row \<Rightarrow> dns_record" where
  "cname_record root self d =
     \<lparr>r_id = 0, r_domain = d_id d, r_name = lower (Host_fqdn root (h_name (host self))),
      r_type = ''CNAME'', r_content = lower (self_fqdn root self), r_auth = True\<rparr>"

definition add_cname :: "string \<Rightarrow> IPAddress \<Rightarrow> unit M" where
  "add_cname root self =
     (if primary self \<and> truthy_str (interface self) then
        bindM (Domain_get root) (\<lambda>d.
        bindM (Record_get_or_create
                 (\<lambda>r. r_domain r = d_id d
                     \<and> r_name r = lower (Host_fqdn root (h_name (host self)))
                     \<and> r_type r = ''CNAME'')
                 (cname_record root self d))
              (\<lambda>(new_cname, created).
                 Record_save (if \<not> created
                              then new_cname\<lparr>r_content := lower (self_fqdn root self)\<rparr>
                              else new_cname)))
      else returnM ())"

definition add_dns :: "string \<Rightarrow> IPAddress \<Rightarrow> unit M" where
  "add_dns root self =
     thenM (add_rename_check root self)
    (thenM (add_forward root self)
    (thenM (add_ptr root self)
           (add_cname root self)))"

text \<open>The \<open>pre_delete\<close> receiver \<open>remote_dns_hook\<close>.\<close>

definition remote_dns_hook :: "string \<Rightarrow> IPAddress \<Rightarrow> unit M" where
  "remote_dns_hook root instance =
     (if truthy_bool (auto_dns instance) then remove_dns root instance else returnM ())"

text \<open>
  \<open>instance.delete()\<close>: the deletion collector sends \<open>pre_delete\<close>, then deletes the
  row, in one transaction of its own.
\<close>

definition delete_steps :: "string \<Rightarrow> IPAddress \<Rightarrow> nat \<Rightarrow> unit M" where
  "delete_steps root self p = thenM (remote_dns_hook root self) (delete_ipaddress_row p)"

definition IPAddress_delete :: "string \<Rightarrow> IPAddress \<Rightarrow> unit M" where
  "IPAddress_delete root self =
     (case pk self of
        None \<Rightarrow> raiseM ValueError
      | Some p \<Rightarrow> atomic (delete_steps root self p))"

text \<open>\<open>IPAddress.save\<close>, under \<open>@transaction.atomic\<close>.\<close>

definition save_steps :: "string \<Rightarrow> IPAddress \<Rightarrow> unit M" where
  "save_steps root self =
     bindM (if truthy_pk (pk self)
            then thenM (IPAddress_delete root self) (returnM (self\<lparr>pk := None\<rparr>))
            else returnM self)
       (\<lambda>self.
          thenM (if truthy_bool (auto_dns self) then add_dns root self else returnM ())
                (IPAddress_base_save self))"

definition IPAddress_save :: "string \<Rightarrow> IPAddress \<Rightarrow> unit M" where
  "IPAddress_save root self = atomic (save_steps root self)"

text \<open>\<open>Host.save\<close>.\<close>

definition name_changed :: "string option \<Rightarrow> Host \<Rightarrow> bool" where
  "name_changed orig_name self =
     (case orig_name of None \<Rightarrow> False | Some n \<Rightarrow> n \<noteq> [] \<and> n \<noteq> h_name self)"

definition Host_save :: "string \<Rightarrow> Host \<Rightarrow> unit M" where
  "Host_save root self =
     bindM (case h_pk self of
              Some p \<Rightarrow>
                bindM (Host_get p) (\<lambda>orig.
                  thenM (if name_changed (Some (hr_name orig)) self
                         then bindM (Host_ipaddresses self) (\<lambda>ips.
                                forM ips (\<lambda>ipaddress.
                                  if truthy_bool (auto_dns ipaddress)
                                  then remove_dns root ipaddress else returnM ()))
                         else returnM ())
                        (returnM (Some (hr_name orig))))
            | None \<Rightarrow> returnM None)
       (\<lambda>orig_name.
          thenM (Host_base_save self)
                (if name_changed orig_name self
                 then bindM (Host_ipaddresses self) (\<lambda>ips. forM ips (IPAddress_save root))
                 else returnM ()))"

text \<open>
  Deleting a host: \<open>on_delete=models.CASCADE\<close> collects its assignments, each receives
  \<open>pre_delete\<close>, then the rows are deleted, all in the collector's transaction.
\<close>

definition Host_delete :: "string \<Rightarrow> Host \<Rightarrow> unit M" where
  "Host_delete root self =
     (case h_pk self of
        None \<Rightarrow> raiseM ValueError
      | Some p \<Rightarrow>
          atomic
            (bindM (Host_ipaddresses self) (\<lambda>ips.
             thenM (forM ips (remote_dns_hook root))
                   (\<lambda>s. (Inr (), s\<lparr>ipaddresses := filter (\<lambda>a. ir_host_id a \<noteq> p) (ipaddresses s),
                                   hosts := filter (\<lambda>h. hr_pk h \<noteq> p) (hosts s)\<rparr>)))))"


section \<open>Notions for stating the properties\<close>

text \<open>The DNS operations write the record table only.\<close>

definition same_tables :: "state \<Rightarrow> state \<Rightarrow> bool" where
  "same_tables s s' \<longleftrightarrow>
     hosts s' = hosts s \<and> ipaddresses s' = ipaddresses s \<and> domains s' = domains s"

text \<open>
  The records that \<open>_remove_dns\<close> deletes for a stored assignment row \<open>a\<close> whose host
  row is \<open>h\<close>.
\<close>

definition removal_target :: "string \<Rightarrow> ipaddress_row \<Rightarrow> host_row \<Rightarrow> dns_record \<Rightarrow> bool" where
  "removal_target root a h r \<longleftrightarrow>
     forward_filter root a h r \<or> (ir_primary a \<and> cname_filter root a h r) \<or> ptr_filter root a h r"

text \<open>The records that \<open>_add_dns\<close> writes for an instance: forward, PTR and CNAME.\<close>

definition is_forward_of :: "string \<Rightarrow> IPAddress \<Rightarrow> dns_record \<Rightarrow> bool" where
  "is_forward_of root self r \<longleftrightarrow>
     r_name r = lower (self_fqdn root self)
     \<and> r_type r = (if version (ip self) = 6 then ''AAAA'' else ''A'')
     \<and> r_content r = str_ip (ip self)"

definition is_ptr_of :: "string \<Rightarrow> IPAddress \<Rightarrow> dns_record \<Rightarrow> bool" where
  "is_ptr_of root self r \<longleftrightarrow>
     r_name r = generate_ptr (ip self) False
     \<and> r_type r = ''PTR''
     \<and> r_content r = lower (self_fqdn root self)"

definition is_cname_of :: "string \<Rightarrow> IPAddress \<Rightarrow> dns_record \<Rightarrow> bool" where
  "is_cname_of root self r \<longleftrightarrow>
     primary self \<and> truthy_str (interface self)
     \<and> r_name r = lower (Host_fqdn root (h_name (host self)))
     \<and> r_type r = ''CNAME''
     \<and> r_content r = lower (self_fqdn root self)"

definition derived_record :: "string \<Rightarrow> IPAddress \<Rightarrow> dns_record \<Rightarrow> bool" where
  "derived_record root self r \<longleftrightarrow>
     is_forward_of root self r \<or> is_ptr_of root self r \<or> is_cname_of root self r"

text \<open>
  From \<open>s\<close> to \<open>s'\<close> the log of the record table was extended, and every record in an
  added entry, and in the table of \<open>s'\<close>, was in the table of \<open>s\<close> or satisfies \<open>N\<close>.
  With \<open>N\<close> false everywhere the writes were deletions only.
\<close>

definition grows_by :: "(dns_record \<Rightarrow> bool) \<Rightarrow> state \<Rightarrow> state \<Rightarrow> bool" where
  "grows_by N s s' \<longleftrightarrow>
     (\<exists>hs. history s' = history s @ hs
         \<and> (\<forall>rs \<in> set hs. \<forall>r \<in> set rs. r \<in> set (records s) \<or> N r))
     \<and> (\<forall>r \<in> set (records s'). r \<in> set (records s) \<or> N r)"

section \<open>An example database\<close>

definition ex_root :: string where
  "ex_root = ''example.com''"

definition ex_foo :: Host where
  "ex_foo = \<lparr>h_pk = Some 1, h_name = ''foo''\<rparr>"

definition ex_zones :: "domain_row list" where
  "ex_zones = [\<lparr>d_id = 1, d_name = ''example.com''\<rparr>,
               \<lparr>d_id = 2, d_name = ''0.0.10.in-addr.arpa''\<rparr>]"

text \<open>The assignment of 10.0.0.5 to host foo, before and after it is stored.\<close>

definition ex_new :: IPAddress where
  "ex_new = \<lparr>pk = None, host = ex_foo, interface = None, ip = IPv4Address 0x0A000005,
             auto_dns = Some True, primary = False\<rparr>"

definition ex_row :: ipaddress_row where
  "ex_row = \<lparr>ir_pk = 1, ir_host_id = 1, ir_interface = None, ir_ip = IPv4Address 0x0A000005,
             ir_auto_dns = Some True, ir_primary = False\<rparr>"

definition ex_rec_a :: dns_record where
  "ex_rec_a = \<lparr>r_id = 1, r_domain = 1, r_name = ''foo.example.com'', r_type = ''A'',
               r_content = ''10.0.0.5'', r_auth = True\<rparr>"

definition ex_rec_ptr :: dns_record where
  "ex_rec_ptr = \<lparr>r_id = 2, r_domain = 2, r_name = ''5.0.0.10.in-addr.arpa'', r_type = ''PTR'',
                 r_content = ''foo.example.com'', r_auth = True\<rparr>"

text \<open>A record that shares the forward name but carries other content.\<close>

definition ex_rec_other :: dns_record where
  "ex_rec_other = \<lparr>r_id = 3, r_domain = 1, r_name = ''foo.example.com'', r_type = ''A'',
                   r_content = ''192.0.2.1'', r_auth = True\<rparr>"

text \<open>A PTR record whose name is the reverse name in upper case.\<close>

definition ex_rec_upper :: dns_record where
  "ex_rec_upper = \<lparr>r_id = 4, r_domain = 2, r_name = ''5.0.0.10.IN-ADDR.ARPA'', r_type = ''PTR'',
                   r_content = ''foo.example.com'', r_auth = True\<rparr>"

definition ex_empty :: state where
  "ex_empty = \<lparr>hosts = [\<lparr>hr_pk = 1, hr_name = ''foo''\<rparr>], ipaddresses = [],
               domains = ex_zones, records = [], history = []\<rparr>"

definition ex_stored :: state where
  "ex_stored = \<lparr>hosts = [\<lparr>hr_pk = 1, hr_name = ''foo''\<rparr>], ipaddresses = [ex_row],
                domains = ex_zones, records = [ex_rec_a, ex_rec_ptr, ex_rec_other, ex_rec_upper],
                history = []\<rparr>"

text \<open>A second assignment of the address that \<open>ex_stored\<close> already holds.\<close>

definition ex_dup :: IPAddress where
  "ex_dup = \<lparr>pk = None, host = ex_foo, interface = Some ''www'', ip = IPv4Address 0x0A000005,
             auto_dns = Some True, primary = False\<rparr>"

text \<open>The same database with the assignment taken out of automatic DNS management.\<close>

definition ex_manual :: state where
  "ex_manual = ex_stored\<lparr>ipaddresses := [ex_row\<lparr>ir_auto_dns := Some False\<rparr>]\<rparr>"

text \<open>
  Empty databases whose reverse zone is the /16 zone \<open>0.10.in-addr.arpa\<close>, and which
  have no reverse zone at all.
\<close>

definition ex_wide :: state where
  "ex_wide = ex_empty\<lparr>domains := [\<lparr>d_id = 1, d_name = ''example.com''\<rparr>,
                                   \<lparr>d_id = 3, d_name = ''0.10.in-addr.arpa''\<rparr>]\<rparr>"

definition ex_nozone :: state where
  "ex_nozone = ex_empty\<lparr>domains := [\<lparr>d_id = 1, d_name = ''example.com''\<rparr>]\<rparr>"

section \<open>Basic facts\<close>


lemma bindM_returnM [simp]: "bindM (returnM x) f = f x"
  by (rule ext) (simp add: bindM_def returnM_def)

lemma bindM_raiseM [simp]: "bindM (raiseM e) f = raiseM e"
  by (rule ext) (simp add: bindM_def raiseM_def)

lemma thenM_returnM [simp]: "thenM (returnM ()) k = k"
  by (simp add: thenM_def)

lemma bindM_Inr: "m s = (Inr x, s') \<Longrightarrow> bindM m f s = f x s'"
  by (simp add: bindM_def)

lemma bindM_Inl: "m s = (Inl e, s') \<Longrightarrow> bindM m f s = (Inl e, s')"
  by (simp add: bindM_def)

lemma thenM_Inr: "m s = (Inr x, s') \<Longrightarrow> thenM m k s = k s'"
  by (simp add: thenM_def bindM_def)

lemma thenM_Inl: "m s = (Inl e, s') \<Longrightarrow> thenM m k s = (Inl e, s')"
  by (simp add: thenM_def bindM_def)

lemma atomic_fail_state: "atomic m s = (Inl e, s') \<Longrightarrow> s' = s"
  by (auto simp: atomic_def split: prod.splits sum.splits)

lemma atomic_Inr: "m s = (Inr x, s') \<Longrightarrow> atomic m s = (Inr x, s')"
  by (simp add: atomic_def)

lemma atomic_Inl: "m s = (Inl e, s') \<Longrightarrow> atomic m s = (Inl e, s)"
  by (simp add: atomic_def)

lemma get_one_simps [simp]:
  "get_one [] = raiseM DoesNotExist"
  "get_one [x] = returnM x"
  "get_one (x # y # zs) = raiseM MultipleObjectsReturned"
  by (simp_all add: get_one_def)

lemma get_one_state: "get_one xs s = (r, s') \<Longrightarrow> s' = s"
  by (cases xs rule: remdups_adj.cases) (auto simp: returnM_def raiseM_def)

lemma IPAddress_get_state: "IPAddress_get p s = (r, s') \<Longrightarrow> s' = s"
  unfolding IPAddress_get_def by (rule get_one_state)

lemma Host_get_state: "Host_get p s = (r, s') \<Longrightarrow> s' = s"
  unfolding Host_get_def by (rule get_one_state)

lemma Domain_get_state: "Domain_get z s = (r, s') \<Longrightarrow> s' = s"
  unfolding Domain_get_def by (rule get_one_state)

lemma fold_max_mono: "a \<le> fold max xs (a::nat)"
proof (induction xs arbitrary: a)
  case Nil
  show ?case by simp
next
  case (Cons y ys)
  have "a \<le> max y a" by simp
  also have "\<dots> \<le> fold max ys (max y a)" by (rule Cons.IH)
  finally show ?case by simp
qed

lemma fold_max_ge: "k \<in> set ks \<Longrightarrow> k \<le> fold max ks (a::nat)"
proof (induction ks arbitrary: a)
  case Nil
  then show ?case by simp
next
  case (Cons x xs)
  show ?case
  proof (cases "k = x")
    case True
    have "x \<le> max x a" by simp
    also have "\<dots> \<le> fold max xs (max x a)" by (rule fold_max_mono)
    finally show ?thesis using True by simp
  next
    case False
    with Cons.prems have "k \<in> set xs" by simp
    then show ?thesis using Cons.IH by simp
  qed
qed

lemma fresh_notin: "fresh ks \<notin> set ks"
proof
  assume "fresh ks \<in> set ks"
  then have "fresh ks \<le> fold max ks 0" by (rule fold_max_ge)
  then show False by (simp add: fresh_def)
qed

lemma fresh_pos: "0 < fresh ks"
  by (simp add: fresh_def)

lemma lower_simps [simp]: "lower [] = []" "lower (c # cs) = lower_char c # lower cs"
  by (simp_all add: lower_def)

lemma lower_char_idem: "lower_char (lower_char c) = lower_char c"
proof (cases "c \<in> set ''ABCDEFGHIJKLMNOPQRSTUVWXYZ''")
  case True
  then show ?thesis by (auto simp: lower_char_def)
next
  case False
  then have "lower_char c = c" by (simp add: lower_char_def)
  then show ?thesis by simp
qed

lemma lower_idem [simp]: "lower (lower s) = lower s"
  by (simp add: lower_def lower_char_idem)

lemma lower_append [simp]: "lower (a @ b) = lower a @ lower b"
  by (simp add: lower_def)

lemma length_lower [simp]: "length (lower s) = length s"
  by (simp add: lower_def)

subsection \<open>Splitting, joining and the text of addresses\<close>

lemma split_sep_nonempty [simp]: "split_sep sep s \<noteq> []"
  by (induction s) (simp_all add: Let_def)

lemma split_sep_no_sep: "sep \<notin> set x \<Longrightarrow> split_sep sep x = [x]"
  by (induction x) (auto simp: Let_def)

lemma split_sep_append:
  "sep \<notin> set x \<Longrightarrow> split_sep sep (x @ sep # rest) = x # split_sep sep rest"
  by (induction x) (auto simp: Let_def)

lemma split_join:
  "xs \<noteq> [] \<Longrightarrow> \<forall>x \<in> set xs. sep \<notin> set x \<Longrightarrow> split_sep sep (join [sep] xs) = xs"
proof (induction "[sep]" xs rule: join.induct)
  case 1
  then show ?case by simp
next
  case (2 x)
  then show ?case by (simp add: split_sep_no_sep)
next
  case (3 x y ys)
  then show ?case by (simp add: split_sep_append)
qed

lemma digit_char_mem: "d < 16 \<Longrightarrow> digit_char d \<in> set ''0123456789abcdef''"
  unfolding digit_char_def by (rule nth_mem) simp

lemma digit_char_neq: "d < 16 \<Longrightarrow> digit_char d \<noteq> CHR ''.'' \<and> digit_char d \<noteq> CHR '':''
   \<and> digit_char d \<noteq> CHR ''/'' \<and> digit_char d \<noteq> CHR ''%''"
  using digit_char_mem [of d] by auto

lemma digit_char_dec: "d < 10 \<Longrightarrow> digit_char d \<in> set ''0123456789''"
proof -
  assume "d < 10"
  then have "d \<in> {0, 1, 2, 3, 4, 5, 6, 7, 8, 9}" by auto
  then show ?thesis by (auto simp: digit_char_def)
qed

lemma str_nat_chars: "c \<in> set (str_nat n) \<Longrightarrow> c \<in> set ''0123456789''"
proof (induction n rule: str_nat.induct)
  case (1 n)
  show ?case
  proof (cases "n < 10")
    case True
    with 1 digit_char_dec [of n] show ?thesis by (simp add: str_nat.simps [of n])
  next
    case False
    with 1 digit_char_dec [of "n mod 10"] show ?thesis
      by (auto simp: str_nat.simps [of n])
  qed
qed

lemma str_nat_no_dot: "CHR ''.'' \<notin> set (str_nat n)"
  using str_nat_chars [of "CHR ''.''" n] by auto

lemma str_ipv4_split:
  "split_sep CHR ''.'' (str_ipv4 a) = map str_nat (octets a)"
  unfolding str_ipv4_def
  by (rule split_join) (auto simp: octets_def str_nat_no_dot)

lemma filter_join:
  "\<forall>x \<in> set xs. \<forall>c \<in> set x. P c \<Longrightarrow> \<forall>c \<in> set sep. \<not> P c \<Longrightarrow>
   filter P (join sep xs) = concat xs"
  by (induction sep xs rule: join.induct) (simp_all add: filter_id_conv)

lemma concat_chunks:
  "concat (map (\<lambda>k. take n (drop (n * k) h)) [0..<m]) = take (n * m) h"
proof (induction m)
  case 0
  show ?case by simp
next
  case (Suc m)
  have "take (n * m) h @ take n (drop (n * m) h) = take (n * m + n) h"
    by (simp add: take_add)
  with Suc show ?case by (simp add: add.commute)
qed

lemma length_hex_str32 [simp]: "length (hex_str32 a) = 32"
  by (simp add: hex_str32_def)

lemma nibble_bound: "unat ((x :: 128 word) AND 15) < 16"
proof -
  have "unat (x AND 15) \<le> unat (15 :: 128 word)"
    by (rule word_and_le1 [THEN word_le_nat_alt [THEN iffD1]])
  then show ?thesis by simp
qed

lemma hex_str32_chars: "c \<in> set (hex_str32 a) \<Longrightarrow> c \<noteq> CHR '':''"
  using digit_char_neq nibble_bound by (auto simp: hex_str32_def)

lemma exploded_nibbles: "filter (\<lambda>c. c \<noteq> CHR '':'') (exploded a) = hex_str32 a"
proof -
  let ?parts = "map (\<lambda>x. take 4 (drop x (hex_str32 a))) (map (\<lambda>k. 4 * k) [0..<8])"
  have "filter (\<lambda>c. c \<noteq> CHR '':'') (join '':'' ?parts) = concat ?parts"
  proof (rule filter_join)
    show "\<forall>x \<in> set ?parts. \<forall>c \<in> set x. c \<noteq> CHR '':''"
    proof (intro ballI)
      fix x c assume "x \<in> set ?parts" "c \<in> set x"
      then have "c \<in> set (hex_str32 a)"
        by (auto dest!: in_set_takeD in_set_dropD)
      then show "c \<noteq> CHR '':''" by (rule hex_str32_chars)
    qed
    show "\<forall>c \<in> set '':''. \<not> c \<noteq> CHR '':''" by simp
  qed
  also have "concat ?parts = take (4 * 8) (hex_str32 a)"
    using concat_chunks [of 4 "hex_str32 a" 8] by (simp add: comp_def)
  also have "\<dots> = hex_str32 a" by simp
  finally show ?thesis by (simp add: exploded_def)
qed

lemma rev_hex_str32:
  "rev (hex_str32 a) = map (\<lambda>i. digit_char (unat (drop_bit (4 * i) a AND 15))) [0..<32]"
  by (simp add: hex_str32_def rev_map)

lemma hex_str32_no_dot: "c \<in> set (hex_str32 a) \<Longrightarrow> c \<noteq> CHR ''.''"
  using digit_char_neq nibble_bound by (auto simp: hex_str32_def)

lemma rev_suffix_neq: "x @ ''.in-addr.arpa'' \<noteq> y @ ''.ip6.arpa''"
proof
  assume eq: "x @ ''.in-addr.arpa'' = y @ ''.ip6.arpa''"
  let ?f = "\<lambda>s :: string. last (butlast (butlast (butlast (butlast (butlast s)))))"
  have "?f (x @ ''.in-addr.arpa'') = CHR ''r''" by (simp add: butlast_append)
  moreover have "?f (y @ ''.ip6.arpa'') = CHR ''6''" by (simp add: butlast_append)
  ultimately show False unfolding eq by simp
qed

lemma join_dot_inj:
  assumes "join ''.'' xs = join ''.'' ys" "xs \<noteq> []" "ys \<noteq> []"
    "\<forall>x \<in> set xs. CHR ''.'' \<notin> set x" "\<forall>y \<in> set ys. CHR ''.'' \<notin> set y"
  shows "xs = ys"
proof -
  have "split_sep CHR ''.'' (join ''.'' xs) = xs"
    using assms(2) assms(4) by (rule split_join)
  moreover have "split_sep CHR ''.'' (join ''.'' ys) = ys"
    using assms(3) assms(5) by (rule split_join)
  ultimately show ?thesis unfolding assms(1) by simp
qed


lemma generate_ptr_eq_str_ip:
  assumes "generate_ptr x False = generate_ptr y False"
  shows "str_ip x = str_ip y"
proof (cases x)
  case x4: (IPv4Address a)
  show ?thesis
  proof (cases y)
    case (IPv4Address b)
    from assms x4 IPv4Address
    have "join ''.'' (rev (map str_nat (octets a))) = join ''.'' (rev (map str_nat (octets b)))"
      by (simp add: generate_ptr_def version_def str_ipv4_split)
    then have "rev (map str_nat (octets a)) = rev (map str_nat (octets b))"
      by (rule join_dot_inj) (auto simp: octets_def str_nat_no_dot)
    then show ?thesis using x4 IPv4Address by (simp add: str_ip_def str_ipv4_def)
  next
    case (IPv6Address b)
    with assms x4 show ?thesis
      using rev_suffix_neq by (simp add: generate_ptr_def version_def)
  qed
next
  case x6: (IPv6Address a)
  show ?thesis
  proof (cases y)
    case (IPv4Address b)
    with assms x6 show ?thesis
      using rev_suffix_neq [of "join ''.'' (rev (split_sep CHR ''.'' (str_ipv4 b)))"]
      by (simp add: generate_ptr_def version_def)
  next
    case (IPv6Address b)
    from assms x6 IPv6Address
    have "join ''.'' (map (\<lambda>c. [c]) (rev (hex_str32 a))) = join ''.'' (map (\<lambda>c. [c]) (rev (hex_str32 b)))"
      by (simp add: generate_ptr_def version_def exploded_nibbles)
    then have "map (\<lambda>c. [c]) (rev (hex_str32 a)) = map (\<lambda>c. [c]) (rev (hex_str32 b))"
    proof (rule join_dot_inj)
      show "map (\<lambda>c. [c]) (rev (hex_str32 a)) \<noteq> []"
        using length_hex_str32 [of a] by (auto simp del: length_hex_str32)
      show "map (\<lambda>c. [c]) (rev (hex_str32 b)) \<noteq> []"
        using length_hex_str32 [of b] by (auto simp del: length_hex_str32)
      show "\<forall>x \<in> set (map (\<lambda>c. [c]) (rev (hex_str32 a))). CHR ''.'' \<notin> set x"
        using hex_str32_no_dot by auto
      show "\<forall>x \<in> set (map (\<lambda>c. [c]) (rev (hex_str32 b))). CHR ''.'' \<notin> set x"
        using hex_str32_no_dot by auto
    qed
    then have eq: "hex_str32 a = hex_str32 b"
      by (simp add: inj_map_eq_map inj_on_def)
    have "str_ipv6 a = str_ipv6 b"
      by (simp only: str_ipv6_def hextets_def eq)
    then show ?thesis using x6 IPv6Address
      by (simp add: str_ip_def)
  qed
qed

subsection \<open>The record-table operations\<close>

lemma Record_get_or_create_new:
  "filter lookup (records s) = [] \<Longrightarrow>
   Record_get_or_create lookup new s =
     (Inr (new\<lparr>r_id := fresh (map r_id (records s))\<rparr>, True),
      write_records (records s @ [new\<lparr>r_id := fresh (map r_id (records s))\<rparr>]) s)"
  by (simp add: Record_get_or_create_def Record_get_def raiseM_def bindM_def Record_create_def
      returnM_def Let_def)

lemma Record_get_or_create_found:
  "filter lookup (records s) = [r] \<Longrightarrow> Record_get_or_create lookup new s = (Inr (r, False), s)"
  by (simp add: Record_get_or_create_def Record_get_def returnM_def)

lemma Record_get_or_create_multi:
  "filter lookup (records s) = r1 # r2 # rs \<Longrightarrow>
   Record_get_or_create lookup new s = (Inl MultipleObjectsReturned, s)"
  by (simp add: Record_get_or_create_def Record_get_def raiseM_def)

subsection \<open>Removal\<close>

lemma remove_dns_stored:
  assumes "pk self = Some p"
    and "IPAddress_get p s = (Inr orig, s)"
    and "Host_get (ir_host_id orig) s = (Inr h, s)"
  shows "remove_dns root self s =
         (thenM (Record_filter_delete (forward_filter root orig h))
         (thenM (if ir_primary orig then Record_filter_delete (cname_filter root orig h)
                 else returnM ())
                (Record_filter_delete (ptr_filter root orig h)))) s"
  using assms by (simp add: remove_dns_def bindM_Inr)

lemma remove_dns_stored_result:
  assumes "pk self = Some p"
    and "IPAddress_get p s = (Inr orig, s)"
    and "Host_get (ir_host_id orig) s = (Inr h, s)"
  shows "fst (remove_dns root self s) = Inr ()"
    and "records (snd (remove_dns root self s)) =
           filter (\<lambda>r. \<not> forward_filter root orig h r
                      \<and> \<not> (ir_primary orig \<and> cname_filter root orig h r)
                      \<and> \<not> ptr_filter root orig h r) (records s)"
    and "hosts (snd (remove_dns root self s)) = hosts s"
    and "ipaddresses (snd (remove_dns root self s)) = ipaddresses s"
    and "domains (snd (remove_dns root self s)) = domains s"
proof -
  let ?F = "forward_filter root orig h" and ?C = "cname_filter root orig h"
    and ?P = "ptr_filter root orig h"
  let ?s1 = "write_records (filter (\<lambda>r. \<not> ?F r) (records s)) s"
  let ?s2 = "if ir_primary orig
             then write_records (filter (\<lambda>r. \<not> ?C r) (filter (\<lambda>r. \<not> ?F r) (records s))) ?s1
             else ?s1"
  have run: "remove_dns root self s =
      (Inr (), write_records (filter (\<lambda>r. \<not> ?P r) (records ?s2)) ?s2)"
    unfolding remove_dns_stored [OF assms]
    by (simp add: thenM_def bindM_def Record_filter_delete_def returnM_def write_records_def)
  show "fst (remove_dns root self s) = Inr ()"
    unfolding run by simp
  show "records (snd (remove_dns root self s)) =
           filter (\<lambda>r. \<not> ?F r \<and> \<not> (ir_primary orig \<and> ?C r) \<and> \<not> ?P r) (records s)"
    unfolding run by (auto simp: write_records_def intro: filter_cong)
  show "hosts (snd (remove_dns root self s)) = hosts s"
    unfolding run by (simp add: write_records_def)
  show "ipaddresses (snd (remove_dns root self s)) = ipaddresses s"
    unfolding run by (simp add: write_records_def)
  show "domains (snd (remove_dns root self s)) = domains s"
    unfolding run by (simp add: write_records_def)
qed

lemma remove_dns_fail_state:
  assumes "remove_dns root self s = (Inl e, s')"
  shows "s' = s"
proof (cases "pk self")
  case None
  with assms show ?thesis by (simp add: remove_dns_def returnM_def)
next
  case (Some p)
  obtain r1 s1 where g1: "IPAddress_get p s = (r1, s1)" by (cases "IPAddress_get p s")
  then have s1: "s1 = s" by (rule IPAddress_get_state)
  show ?thesis
  proof (cases r1)
    case (Inl e1)
    with assms Some g1 s1 show ?thesis by (simp add: remove_dns_def bindM_def)
  next
    case (Inr orig)
    obtain r2 s2 where g2: "Host_get (ir_host_id orig) s = (r2, s2)"
      by (cases "Host_get (ir_host_id orig) s")
    then have s2: "s2 = s" by (rule Host_get_state)
    show ?thesis
    proof (cases r2)
      case (Inl e2)
      with assms Some g1 s1 Inr g2 s2 show ?thesis by (simp add: remove_dns_def bindM_def)
    next
      case h: (Inr h)
      with assms Some g1 s1 Inr g2 s2 show ?thesis
        by (simp add: remove_dns_def bindM_def thenM_def Record_filter_delete_def returnM_def
            split: if_splits)
    qed
  qed
qed

lemma forM_hook_filter:
  "forM ips (remote_dns_hook root) =
   forM (filter (\<lambda>a. truthy_bool (auto_dns a)) ips) (remove_dns root)"
  by (induction ips) (simp_all add: remote_dns_hook_def)

lemma forM_noop: "(\<And>x. x \<in> set xs \<Longrightarrow> f x = returnM ()) \<Longrightarrow> forM xs f = returnM ()"
  by (induction xs) simp_all

subsection \<open>The example database\<close>

lemma ex_str: "str_ip (IPv4Address 0x0A000005) = ''10.0.0.5''"
  by (simp add: str_ip_def str_ipv4_def octets_def str_nat.simps digit_char_def)

lemma ex_ptr_host: "generate_ptr (IPv4Address 0x0A000005) False = ''5.0.0.10.in-addr.arpa''"
  using ex_str by (simp add: generate_ptr_def version_def str_ip_def)

lemma ex_ptr_zone: "generate_ptr (IPv4Address 0x0A000005) True = ''0.0.10.in-addr.arpa''"
  using ex_str by (simp add: generate_ptr_def version_def str_ip_def)

lemma ex_get_row: "IPAddress_get 1 ex_stored = (Inr ex_row, ex_stored)"
  by (simp add: IPAddress_get_def returnM_def ex_stored_def ex_row_def)

lemma ex_get_host:
  "Host_get (ir_host_id ex_row) ex_stored = (Inr \<lparr>hr_pk = 1, hr_name = ''foo''\<rparr>, ex_stored)"
  by (simp add: Host_get_def returnM_def ex_stored_def ex_row_def)

lemma ex_remove:
  "fst (remove_dns ex_root (ex_new\<lparr>pk := Some 1\<rparr>) ex_stored) = Inr ()"
  "records (snd (remove_dns ex_root (ex_new\<lparr>pk := Some 1\<rparr>) ex_stored)) =
     [ex_rec_other, ex_rec_upper]"
proof -
  have p: "pk (ex_new\<lparr>pk := Some 1\<rparr>) = Some 1" by simp
  show "fst (remove_dns ex_root (ex_new\<lparr>pk := Some 1\<rparr>) ex_stored) = Inr ()"
    by (rule remove_dns_stored_result(1) [OF p ex_get_row ex_get_host])
  show "records (snd (remove_dns ex_root (ex_new\<lparr>pk := Some 1\<rparr>) ex_stored)) =
     [ex_rec_other, ex_rec_upper]"
    unfolding remove_dns_stored_result(2) [OF p ex_get_row ex_get_host]
    by (simp add: forward_filter_def cname_filter_def ptr_filter_def iexact_def
        ex_stored_def ex_row_def ex_str ex_ptr_host IPAddress_fqdn_def truthy_str_def
        ex_root_def ex_rec_a_def ex_rec_ptr_def ex_rec_other_def ex_rec_upper_def lower_char_def)
qed

lemma ex_dup_steps:
  "fst (save_steps ex_root ex_dup ex_stored) = Inl IntegrityError"
  "records (snd (save_steps ex_root ex_dup ex_stored)) =
     [ex_rec_a, ex_rec_ptr\<lparr>r_content := ''www.foo.example.com''\<rparr>, ex_rec_other, ex_rec_upper,
      \<lparr>r_id = 5, r_domain = 1, r_name = ''www.foo.example.com'', r_type = ''A'',
        r_content = ''10.0.0.5'', r_auth = True\<rparr>]"
  by (simp_all add: save_steps_def ex_dup_def truthy_pk_def truthy_bool_def add_dns_def
      add_rename_check_def add_forward_def add_ptr_def add_cname_def find_ptr_zone_def
      Domain_get_def ex_stored_def ex_zones_def ex_root_def returnM_def raiseM_def bindM_def
      thenM_def Record_get_or_create_def Record_get_def Record_create_def Record_save_def
      write_records_def forward_record_def ptr_record_def self_fqdn_def IPAddress_fqdn_def
      truthy_str_def ex_foo_def lower_char_def ex_str ex_ptr_host ex_ptr_zone version_def
      ex_rec_a_def ex_rec_ptr_def ex_rec_other_def ex_rec_upper_def fresh_def
      IPAddress_base_save_def ex_row_def Let_def)

subsection \<open>The steps of record creation\<close>

lemma write_records_simps [simp]:
  "records (write_records rs s) = rs"
  "hosts (write_records rs s) = hosts s"
  "ipaddresses (write_records rs s) = ipaddresses s"
  "domains (write_records rs s) = domains s"
  "history (write_records rs s) = history s @ [rs]"
  by (simp_all add: write_records_def)

lemma Domain_get_write_records [simp]:
  "Domain_get z (write_records rs s) = (fst (Domain_get z s), write_records rs s)"
  by (cases "filter (\<lambda>d. d_name d = z) (domains s)" rule: remdups_adj.cases)
     (simp_all add: Domain_get_def returnM_def raiseM_def)

lemma Domain_get_unique:
  "filter (\<lambda>d. d_name d = z) (domains s) = [d] \<Longrightarrow> Domain_get z s = (Inr d, s)"
  by (simp add: Domain_get_def returnM_def)

lemma Domain_get_multi:
  "filter (\<lambda>d. d_name d = z) (domains s) = d1 # d2 # ds \<Longrightarrow>
   Domain_get z s = (Inl MultipleObjectsReturned, s)"
  by (simp add: Domain_get_def raiseM_def)

lemma Domain_get_none:
  "filter (\<lambda>d. d_name d = z) (domains s) = [] \<Longrightarrow> Domain_get z s = (Inl DoesNotExist, s)"
  by (simp add: Domain_get_def raiseM_def)

lemma replace_fresh:
  "r_id r \<notin> set (map r_id rs) \<Longrightarrow>
   map (\<lambda>x. if r_id x = r_id r then r else x) (rs @ [r]) = rs @ [r]"
  by (induction rs) auto

lemma Record_save_created:
  "records s = rs @ [r] \<Longrightarrow> r_id r \<notin> set (map r_id rs) \<Longrightarrow>
   Record_save r s = (Inr (), write_records (rs @ [r]) s)"
  using replace_fresh [of r rs] by (simp add: Record_save_def)

lemma get_or_create_then_save_new:
  assumes "filter lookup (records s) = []"
  shows "bindM (Record_get_or_create lookup new)
           (\<lambda>(r, created). Record_save (if \<not> created then patch r else r)) s =
         (Inr (), write_records (records s @ [new\<lparr>r_id := fresh (map r_id (records s))\<rparr>])
                    (write_records (records s @ [new\<lparr>r_id := fresh (map r_id (records s))\<rparr>]) s))"
proof -
  let ?r = "new\<lparr>r_id := fresh (map r_id (records s))\<rparr>"
  let ?s1 = "write_records (records s @ [?r]) s"
  have "r_id ?r \<notin> set (map r_id (records s))"
    using fresh_notin [of "map r_id (records s)"] by simp
  then have "Record_save ?r ?s1 = (Inr (), write_records (records s @ [?r]) ?s1)"
    by (intro Record_save_created) simp_all
  then show ?thesis
    by (simp add: bindM_def Record_get_or_create_new [OF assms])
qed

lemma add_forward_new:
  assumes "filter (\<lambda>d. d_name d = root) (domains s) = [d]"
    and "\<forall>r \<in> set (records s). \<not> (r_domain r = d_id d \<and> r_name r = lower (self_fqdn root self)
                  \<and> r_type r = (if version (ip self) = 6 then ''AAAA'' else ''A'')
                  \<and> r_content r = str_ip (ip self))"
  shows "add_forward root self s =
     (Inr (), write_records (records s @ [(forward_record root self d)\<lparr>r_id := fresh (map r_id (records s))\<rparr>])
               (write_records (records s @ [(forward_record root self d)\<lparr>r_id := fresh (map r_id (records s))\<rparr>]) s))"
proof -
  have e: "filter (\<lambda>r. r_domain r = d_id d \<and> r_name r = lower (self_fqdn root self)
                  \<and> r_type r = (if version (ip self) = 6 then ''AAAA'' else ''A'')
                  \<and> r_content r = str_ip (ip self)) (records s) = []"
    using assms(2) by (simp add: filter_empty_conv)
  have "add_forward root self s =
     bindM (Record_get_or_create
              (\<lambda>r. r_domain r = d_id d \<and> r_name r = lower (self_fqdn root self)
                  \<and> r_type r = (if version (ip self) = 6 then ''AAAA'' else ''A'')
                  \<and> r_content r = str_ip (ip self))
              (forward_record root self d))
           (\<lambda>(new_a, created). Record_save (if \<not> created then new_a else new_a)) s"
    by (simp add: add_forward_def bindM_def [of "Domain_get root"] Domain_get_unique [OF assms(1)])
  also note get_or_create_then_save_new [OF e]
  finally show ?thesis .
qed

lemma generate_ptr_has_dot: "CHR ''.'' \<in> set (generate_ptr x d)"
  by (cases x) (simp_all add: generate_ptr_def version_def Let_def)

lemma find_ptr_zone_exact:
  "filter (\<lambda>d. d_name d = generate_ptr (ip self) True) (domains s) = [d] \<Longrightarrow>
   find_ptr_zone self s = (Inr (Some d), s)"
  by (simp add: find_ptr_zone_def Domain_get_unique)

lemma find_ptr_zone_fallback:
  assumes "filter (\<lambda>d. d_name d = generate_ptr (ip self) True) (domains s) = []"
  shows "find_ptr_zone self s =
     (case filter (\<lambda>d. d_name d = tl (dropWhile (\<lambda>c. c \<noteq> CHR ''.'') (generate_ptr (ip self) True)))
             (domains s) of
        [] \<Rightarrow> (Inr None, s)
      | [d] \<Rightarrow> (Inr (Some d), s)
      | _ # _ # _ \<Rightarrow> (Inl MultipleObjectsReturned, s))"
proof -
  let ?z = "tl (dropWhile (\<lambda>c. c \<noteq> CHR ''.'') (generate_ptr (ip self) True))"
  have sp: "split1 CHR ''.'' (generate_ptr (ip self) True) =
      [takeWhile (\<lambda>c. c \<noteq> CHR ''.'') (generate_ptr (ip self) True), ?z]"
    by (simp add: split1_def generate_ptr_has_dot)
  have fz: "find_ptr_zone self s =
      (case Domain_get ?z s of
         (Inr d, s'') \<Rightarrow> (Inr (Some d), s'')
       | (Inl DoesNotExist, s'') \<Rightarrow> (Inr None, s'')
       | (Inl e, s'') \<Rightarrow> (Inl e, s''))"
    by (simp add: find_ptr_zone_def Let_def Domain_get_none [OF assms] sp)
  show ?thesis
    unfolding fz
    by (cases "filter (\<lambda>d. d_name d = ?z) (domains s)" rule: remdups_adj.cases)
       (simp_all add: Domain_get_def returnM_def raiseM_def)
qed

lemma add_ptr_new:
  assumes "find_ptr_zone self s = (Inr (Some d), s)"
    and "\<forall>r \<in> set (records s). \<not> (r_domain r = d_id d \<and> r_name r = generate_ptr (ip self) False
                        \<and> r_type r = ''PTR'')"
  shows "add_ptr root self s =
     (Inr (), write_records (records s @ [(ptr_record root self d)\<lparr>r_id := fresh (map r_id (records s))\<rparr>])
               (write_records (records s @ [(ptr_record root self d)\<lparr>r_id := fresh (map r_id (records s))\<rparr>]) s))"
proof -
  have e: "filter (\<lambda>r. r_domain r = d_id d \<and> r_name r = generate_ptr (ip self) False
                        \<and> r_type r = ''PTR'') (records s) = []"
    using assms(2) by (simp add: filter_empty_conv)
  show ?thesis
    by (simp add: add_ptr_def bindM_def [of "find_ptr_zone self"] assms(1)
        get_or_create_then_save_new [OF e])
qed

lemma add_ptr_skip:
  "find_ptr_zone self s = (Inr None, s) \<Longrightarrow> add_ptr root self s = (Inr (), s)"
  by (simp add: add_ptr_def bindM_def returnM_def)


lemma ex_lower_foo: "lower ''foo.example.com'' = ''foo.example.com''"
  by (simp add: lower_char_def)

lemma IPAddress_base_save_insert:
  assumes "pk self = None" and "h_pk (host self) = Some hid"
    and "hid \<in> set (map hr_pk (hosts s))"
    and "\<forall>a \<in> set (ipaddresses s). ir_ip a \<noteq> ip self"
  shows "IPAddress_base_save self s =
     (Inr (), s\<lparr>ipaddresses := ipaddresses s @
        [\<lparr>ir_pk = fresh (map ir_pk (ipaddresses s)), ir_host_id = hid,
          ir_interface = interface self, ir_ip = ip self, ir_auto_dns = auto_dns self,
          ir_primary = primary self\<rparr>]\<rparr>)"
proof -
  have "fresh (map ir_pk (ipaddresses s)) \<notin> set (map ir_pk (ipaddresses s))"
    by (rule fresh_notin)
  then have "fresh (map ir_pk (ipaddresses s)) \<notin> ir_pk ` set (ipaddresses s)" by simp
  with assms show ?thesis
    by (simp add: IPAddress_base_save_def Let_def)
qed

lemma same_tables_refl [simp]: "same_tables s s"
  by (simp add: same_tables_def)

lemma same_tables_trans: "same_tables s s1 \<Longrightarrow> same_tables s1 s2 \<Longrightarrow> same_tables s s2"
  by (simp add: same_tables_def)

lemma same_tables_write [simp]: "same_tables s (write_records rs s)"
  by (simp add: same_tables_def)

lemma same_tables_write2: "same_tables s s1 \<Longrightarrow> same_tables s (write_records rs s1)"
  by (simp add: same_tables_def)

lemma Record_get_or_create_cases:
  obtains (new) "filter lookup (records s) = []"
      "Record_get_or_create lookup new s =
         (Inr (new\<lparr>r_id := fresh (map r_id (records s))\<rparr>, True),
          write_records (records s @ [new\<lparr>r_id := fresh (map r_id (records s))\<rparr>]) s)"
  | (found) r where "filter lookup (records s) = [r]"
      "Record_get_or_create lookup new s = (Inr (r, False), s)"
  | (multi) "Record_get_or_create lookup new s = (Inl MultipleObjectsReturned, s)"
proof (cases "filter lookup (records s)" rule: remdups_adj.cases)
  case 1
  then show ?thesis using new Record_get_or_create_new by blast
next
  case (2 x)
  then show ?thesis using found Record_get_or_create_found by blast
next
  case (3 x y xs)
  then show ?thesis using multi Record_get_or_create_multi by blast
qed

lemma Record_save_eq:
  "Record_save r s =
     (Inr (), write_records
        (if r_id r \<in> set (map r_id (records s))
         then map (\<lambda>x. if r_id x = r_id r then r else x) (records s)
         else records s @ [r]) s)"
  by (simp add: Record_save_def)

lemma remove_dns_same_tables: "same_tables s (snd (remove_dns root self s))"
proof (cases "pk self")
  case None
  then show ?thesis by (simp add: remove_dns_def returnM_def)
next
  case (Some p)
  obtain r1 s1 where g1: "IPAddress_get p s = (r1, s1)" by (cases "IPAddress_get p s")
  then have s1: "s1 = s" by (rule IPAddress_get_state)
  show ?thesis
  proof (cases r1)
    case (Inl e1)
    with Some g1 s1 show ?thesis by (simp add: remove_dns_def bindM_def)
  next
    case (Inr orig)
    obtain r2 s2 where g2: "Host_get (ir_host_id orig) s = (r2, s2)"
      by (cases "Host_get (ir_host_id orig) s")
    then have s2: "s2 = s" by (rule Host_get_state)
    show ?thesis
    proof (cases r2)
      case (Inl e2)
      with Some g1 s1 Inr g2 s2 show ?thesis by (simp add: remove_dns_def bindM_def)
    next
      case h: (Inr h)
      with Some g1 s1 Inr g2 s2 show ?thesis
        by (simp add: remove_dns_def bindM_def thenM_def Record_filter_delete_def returnM_def
            same_tables_def)
    qed
  qed
qed

lemma add_rename_check_same_tables: "same_tables s (snd (add_rename_check root self s))"
proof (cases "truthy_pk (pk self)")
  case False
  then show ?thesis by (simp add: add_rename_check_def returnM_def)
next
  case True
  obtain r1 s1 where g1: "IPAddress_get (the (pk self)) s = (r1, s1)"
    by (cases "IPAddress_get (the (pk self)) s")
  then have s1: "s1 = s" by (rule IPAddress_get_state)
  show ?thesis
  proof (cases r1)
    case (Inl e1)
    with True g1 s1 show ?thesis by (simp add: add_rename_check_def bindM_def)
  next
    case (Inr orig)
    obtain r2 s2 where g2: "Host_get (ir_host_id orig) s = (r2, s2)"
      by (cases "Host_get (ir_host_id orig) s")
    then have s2: "s2 = s" by (rule Host_get_state)
    show ?thesis
    proof (cases r2)
      case (Inl e2)
      with True g1 s1 Inr g2 s2 show ?thesis by (simp add: add_rename_check_def bindM_def)
    next
      case h: (Inr h)
      with True g1 s1 Inr g2 s2 show ?thesis
        by (simp add: add_rename_check_def bindM_def returnM_def remove_dns_same_tables)
    qed
  qed
qed

text \<open>The outcomes of the forward step.\<close>

lemma add_forward_cases:
  assumes "add_forward root self s = (res, s')"
  obtains (fail) e where "res = Inl e" "s' = s"
  | (new) d where "res = Inr ()" "filter (\<lambda>d. d_name d = root) (domains s) = [d]"
      "s' = write_records (records s @ [(forward_record root self d)\<lparr>r_id := fresh (map r_id (records s))\<rparr>])
             (write_records (records s @ [(forward_record root self d)\<lparr>r_id := fresh (map r_id (records s))\<rparr>]) s)"
  | (found) d r where "res = Inr ()" "filter (\<lambda>d. d_name d = root) (domains s) = [d]"
      "r \<in> set (records s)" "r_domain r = d_id d" "r_name r = lower (self_fqdn root self)"
      "r_type r = (if version (ip self) = 6 then ''AAAA'' else ''A'')"
      "r_content r = str_ip (ip self)"
      "s' = write_records (map (\<lambda>x. if r_id x = r_id r then r else x) (records s)) s"
proof (cases "filter (\<lambda>d. d_name d = root) (domains s)" rule: remdups_adj.cases)
  case 1
  with assms fail show ?thesis
    by (auto simp: add_forward_def bindM_def Domain_get_none raiseM_def)
next
  case (3 x y xs)
  with assms fail show ?thesis
    by (auto simp: add_forward_def bindM_def Domain_get_multi raiseM_def)
next
  case (2 d)
  let ?L = "\<lambda>r. r_domain r = d_id d \<and> r_name r = lower (self_fqdn root self)
                  \<and> r_type r = (if version (ip self) = 6 then ''AAAA'' else ''A'')
                  \<and> r_content r = str_ip (ip self)"
  have af: "add_forward root self s =
     bindM (Record_get_or_create ?L (forward_record root self d))
           (\<lambda>(new_a, created). Record_save new_a) s"
    by (simp add: add_forward_def bindM_def [of "Domain_get root"] Domain_get_unique [OF 2])
  show ?thesis
  proof (cases rule: Record_get_or_create_cases [of ?L s "forward_record root self d"])
    case new
    then have "\<forall>r \<in> set (records s). \<not> ?L r" by (simp add: filter_empty_conv)
    from add_forward_new [OF 2 this] assms show ?thesis
      using that(2) [OF _ 2] by simp
  next
    case (found r)
    then have "r \<in> set (filter ?L (records s))" by simp
    then have r: "r \<in> set (records s)" "?L r" by auto
    from found(2) assms af
    have "res = Inr ()" "s' = write_records (map (\<lambda>x. if r_id x = r_id r then r else x) (records s)) s"
      using r(1) by (auto simp: bindM_def Record_save_eq)
    with r show ?thesis using that(3) [OF _ 2] by blast
  next
    case multi
    with assms af fail show ?thesis by (auto simp: bindM_def)
  qed
qed


lemma find_ptr_zone_state: "find_ptr_zone self s = (r, s') \<Longrightarrow> s' = s"
proof (cases "filter (\<lambda>d. d_name d = generate_ptr (ip self) True) (domains s)"
    rule: remdups_adj.cases)
  case 1
  assume a: "find_ptr_zone self s = (r, s')"
  from a show ?thesis unfolding find_ptr_zone_fallback [OF 1]
    by (auto split: list.splits)
next
  case (2 d)
  assume "find_ptr_zone self s = (r, s')"
  then show ?thesis by (simp add: find_ptr_zone_exact [OF 2])
next
  case (3 x y xs)
  assume "find_ptr_zone self s = (r, s')"
  then show ?thesis by (simp add: find_ptr_zone_def Domain_get_multi [OF 3] Let_def)
qed

lemma get_or_create_patch_cases:
  assumes "bindM (Record_get_or_create L new)
             (\<lambda>(r, created). Record_save (if \<not> created then r\<lparr>r_content := c\<rparr> else r)) s
           = (res, s')"
  obtains (fail) e where "res = Inl e" "s' = s"
  | (new) "res = Inr ()" "\<forall>r \<in> set (records s). \<not> L r"
      "s' = write_records (records s @ [new\<lparr>r_id := fresh (map r_id (records s))\<rparr>])
             (write_records (records s @ [new\<lparr>r_id := fresh (map r_id (records s))\<rparr>]) s)"
  | (found) r where "res = Inr ()" "r \<in> set (records s)" "L r"
      "s' = write_records (map (\<lambda>x. if r_id x = r_id r then r\<lparr>r_content := c\<rparr> else x)
                             (records s)) s"
proof (cases rule: Record_get_or_create_cases [of L s new])
  case new
  from get_or_create_then_save_new [OF new(1), of new "\<lambda>r. r\<lparr>r_content := c\<rparr>"] assms
  have "res = Inr ()"
    "s' = write_records (records s @ [new\<lparr>r_id := fresh (map r_id (records s))\<rparr>])
             (write_records (records s @ [new\<lparr>r_id := fresh (map r_id (records s))\<rparr>]) s)"
    by simp_all
  moreover from new(1) have "\<forall>r \<in> set (records s). \<not> L r" by (simp add: filter_empty_conv)
  ultimately show ?thesis using that(2) by blast
next
  case (found r)
  then have "r \<in> set (filter L (records s))" by simp
  then have r: "r \<in> set (records s)" "L r" by auto
  from found(2) assms
  have "res = Inr ()"
    "s' = write_records (map (\<lambda>x. if r_id x = r_id r then r\<lparr>r_content := c\<rparr> else x)
                             (records s)) s"
    using r(1) by (auto simp: bindM_def Record_save_eq)
  with r show ?thesis using that(3) by blast
next
  case multi
  with assms that(1) show ?thesis by (auto simp: bindM_def)
qed

lemma add_ptr_cases:
  assumes "add_ptr root self s = (res, s')"
  obtains (fail) e where "res = Inl e" "s' = s"
  | (skip) "res = Inr ()" "s' = s" "find_ptr_zone self s = (Inr None, s)"
  | (new) d where "res = Inr ()" "find_ptr_zone self s = (Inr (Some d), s)"
      "s' = write_records (records s @ [(ptr_record root self d)\<lparr>r_id := fresh (map r_id (records s))\<rparr>])
             (write_records (records s @ [(ptr_record root self d)\<lparr>r_id := fresh (map r_id (records s))\<rparr>]) s)"
  | (found) d r where "res = Inr ()" "find_ptr_zone self s = (Inr (Some d), s)"
      "r \<in> set (records s)" "r_domain r = d_id d" "r_name r = generate_ptr (ip self) False"
      "r_type r = ''PTR''"
      "s' = write_records (map (\<lambda>x. if r_id x = r_id r
                                     then r\<lparr>r_content := lower (self_fqdn root self)\<rparr> else x)
                             (records s)) s"
proof -
  obtain z sz where z: "find_ptr_zone self s = (z, sz)" by (cases "find_ptr_zone self s")
  then have sz: "sz = s" by (rule find_ptr_zone_state)
  show ?thesis
  proof (cases z)
    case (Inl e)
    with assms z sz fail show ?thesis by (auto simp: add_ptr_def bindM_def)
  next
    case (Inr dom)
    show ?thesis
    proof (cases dom)
      case None
      with assms z sz Inr skip show ?thesis by (auto simp: add_ptr_def bindM_def returnM_def)
    next
      case (Some d)
      have fz: "find_ptr_zone self s = (Inr (Some d), s)"
        using z sz Inr Some by simp
      have "bindM (Record_get_or_create
                    (\<lambda>r. r_domain r = d_id d \<and> r_name r = generate_ptr (ip self) False
                        \<and> r_type r = ''PTR'')
                    (ptr_record root self d))
                 (\<lambda>(new_ptr, created).
                    Record_save (if \<not> created
                                 then new_ptr\<lparr>r_content := lower (self_fqdn root self)\<rparr>
                                 else new_ptr)) s = (res, s')"
        using assms by (simp add: add_ptr_def bindM_def [of "find_ptr_zone self"] fz)
      then show ?thesis
      proof (cases rule: get_or_create_patch_cases)
        case (fail e)
        then show ?thesis using that(1) by blast
      next
        case new
        then show ?thesis using that(3) [OF _ fz] by blast
      next
        case (found r)
        then show ?thesis using that(4) [OF _ fz] by blast
      qed
    qed
  qed
qed

lemma add_cname_cases:
  assumes "add_cname root self s = (res, s')"
  obtains (fail) e where "res = Inl e" "s' = s"
  | (skip) "res = Inr ()" "s' = s" "\<not> (primary self \<and> truthy_str (interface self))"
  | (new) d where "res = Inr ()" "primary self" "truthy_str (interface self)"
      "filter (\<lambda>d. d_name d = root) (domains s) = [d]"
      "s' = write_records (records s @ [(cname_record root self d)\<lparr>r_id := fresh (map r_id (records s))\<rparr>])
             (write_records (records s @ [(cname_record root self d)\<lparr>r_id := fresh (map r_id (records s))\<rparr>]) s)"
  | (found) d r where "res = Inr ()" "primary self" "truthy_str (interface self)"
      "filter (\<lambda>d. d_name d = root) (domains s) = [d]"
      "r \<in> set (records s)" "r_domain r = d_id d"
      "r_name r = lower (Host_fqdn root (h_name (host self)))" "r_type r = ''CNAME''"
      "s' = write_records (map (\<lambda>x. if r_id x = r_id r
                                     then r\<lparr>r_content := lower (self_fqdn root self)\<rparr> else x)
                             (records s)) s"
proof (cases "primary self \<and> truthy_str (interface self)")
  case False
  with assms skip show ?thesis by (auto simp: add_cname_def returnM_def)
next
  case True
  show ?thesis
  proof (cases "filter (\<lambda>d. d_name d = root) (domains s)" rule: remdups_adj.cases)
    case 1
    with assms True fail show ?thesis
      by (auto simp: add_cname_def bindM_def Domain_get_none raiseM_def)
  next
    case (3 x y xs)
    with assms True fail show ?thesis
      by (auto simp: add_cname_def bindM_def Domain_get_multi raiseM_def)
  next
    case (2 d)
    have "bindM (Record_get_or_create
                 (\<lambda>r. r_domain r = d_id d
                     \<and> r_name r = lower (Host_fqdn root (h_name (host self)))
                     \<and> r_type r = ''CNAME'')
                 (cname_record root self d))
              (\<lambda>(new_cname, created).
                 Record_save (if \<not> created
                              then new_cname\<lparr>r_content := lower (self_fqdn root self)\<rparr>
                              else new_cname)) s = (res, s')"
      using assms True
      by (simp add: add_cname_def bindM_def [of "Domain_get root"] Domain_get_unique [OF 2])
    then show ?thesis
    proof (cases rule: get_or_create_patch_cases)
      case (fail e)
      then show ?thesis using that(1) by blast
    next
      case new
      then show ?thesis using that(3) [OF _ _ _ 2] True by blast
    next
      case (found r)
      then show ?thesis using that(4) [OF _ _ _ 2] True by blast
    qed
  qed
qed

lemma add_forward_same_tables: "same_tables s (snd (add_forward root self s))"
proof -
  obtain res s' where r: "add_forward root self s = (res, s')"
    by (cases "add_forward root self s")
  from r have "same_tables s s'"
    by (cases rule: add_forward_cases) (simp_all add: same_tables_write2)
  with r show ?thesis by simp
qed

lemma add_ptr_same_tables: "same_tables s (snd (add_ptr root self s))"
proof -
  obtain res s' where r: "add_ptr root self s = (res, s')"
    by (cases "add_ptr root self s")
  from r have "same_tables s s'"
    by (cases rule: add_ptr_cases) (simp_all add: same_tables_write2)
  with r show ?thesis by simp
qed

lemma add_cname_same_tables: "same_tables s (snd (add_cname root self s))"
proof -
  obtain res s' where r: "add_cname root self s = (res, s')"
    by (cases "add_cname root self s")
  from r have "same_tables s s'"
    by (cases rule: add_cname_cases) (simp_all add: same_tables_write2)
  with r show ?thesis by simp
qed

lemma add_forward_exists:
  assumes "add_forward root self s = (Inr (), s')"
  shows "\<exists>r \<in> set (records s'). r_name r = lower (self_fqdn root self)
           \<and> r_type r = (if version (ip self) = 6 then ''AAAA'' else ''A'')
           \<and> r_content r = str_ip (ip self)"
  using assms
proof (cases rule: add_forward_cases)
  case (fail e)
  then show ?thesis by simp
next
  case (new d)
  then show ?thesis by (simp add: forward_record_def)
next
  case (found d r)
  have "r \<in> set (map (\<lambda>x. if r_id x = r_id r then r else x) (records s))"
    using found(3) by (force simp: image_iff)
  with found show ?thesis by auto
qed

lemma ex_create:
  "records (snd (IPAddress_save ''example.com'' ex_new ex_empty)) = [ex_rec_a, ex_rec_ptr]"
  by (simp add: IPAddress_save_def atomic_def save_steps_def ex_new_def truthy_pk_def
      truthy_bool_def add_dns_def
      add_rename_check_def add_forward_def add_ptr_def add_cname_def find_ptr_zone_def
      Domain_get_def ex_empty_def ex_zones_def returnM_def raiseM_def bindM_def
      thenM_def Record_get_or_create_def Record_get_def Record_create_def Record_save_def
      write_records_def forward_record_def ptr_record_def self_fqdn_def IPAddress_fqdn_def
      truthy_str_def ex_foo_def lower_char_def ex_str ex_ptr_host ex_ptr_zone version_def
      ex_rec_a_def ex_rec_ptr_def fresh_def IPAddress_base_save_def Let_def)

lemma ex_forward:
  "fst (add_forward ex_root ex_new ex_nozone) = Inr ()"
  "records (snd (add_forward ex_root ex_new ex_nozone)) = [ex_rec_a]"
  by (simp_all add: ex_new_def add_forward_def
      Domain_get_def ex_nozone_def ex_empty_def ex_root_def returnM_def raiseM_def bindM_def
      Record_get_or_create_def Record_get_def Record_create_def Record_save_def
      write_records_def forward_record_def self_fqdn_def IPAddress_fqdn_def
      truthy_str_def ex_foo_def lower_char_def ex_str version_def
      ex_rec_a_def fresh_def Let_def)

section \<open>Removal of DNS records\<close>

text \<open>
  Claim C10. \<open>_remove_dns\<close> on an assignment without stored identity (\<open>pk\<close> is \<open>None\<close>:
  never saved, or already deleted) does nothing: it returns normally and the whole
  database, the record table included, is as before.
\<close>

theorem remove_dns_unsaved_noop:
  "pk self = None \<Longrightarrow> remove_dns root self s = (Inr (), s)"
  by (simp add: remove_dns_def returnM_def)

theorem remove_dns_unsaved_noop_witness:
  "pk ex_new = None \<and> remove_dns ex_root ex_new ex_stored = (Inr (), ex_stored)"
proof -
  have h: "pk ex_new = None" by (simp add: ex_new_def)
  from h remove_dns_unsaved_noop [OF h, of ex_root ex_stored] show ?thesis by simp
qed

text \<open>
  Claim C3, as the code has it. For a stored assignment, \<open>_remove_dns\<close> returns normally
  and keeps exactly the records that are none of: an A or AAAA record whose name is the
  stored FQDN up to case and whose content is the stored address; when \<open>primary\<close> is
  stored, a CNAME record whose name is the host FQDN up to case and whose content is the
  stored FQDN up to case; a PTR record whose name is exactly the host-form reverse name
  (case matters here) and whose content is the stored FQDN up to case. Hosts,
  assignments and zones are untouched.
\<close>

theorem remove_dns_deletes_exactly:
  assumes "pk self = Some p"
    and "IPAddress_get p s = (Inr orig, s)"
    and "Host_get (ir_host_id orig) s = (Inr h, s)"
  shows "\<exists>s'. remove_dns root self s = (Inr (), s')
           \<and> records s' =
               filter (\<lambda>r.
                 \<not> (lower (r_name r) = lower (IPAddress_fqdn root (ir_interface orig) (hr_name h))
                    \<and> r_type r \<in> {''A'', ''AAAA''}
                    \<and> r_content r = str_ip (ir_ip orig))
               \<and> \<not> (ir_primary orig
                    \<and> lower (r_name r) = lower (Host_fqdn root (hr_name h))
                    \<and> r_type r = ''CNAME''
                    \<and> lower (r_content r) = lower (IPAddress_fqdn root (ir_interface orig) (hr_name h)))
               \<and> \<not> (r_name r = generate_ptr (ir_ip orig) False
                    \<and> r_type r = ''PTR''
                    \<and> lower (r_content r) = lower (IPAddress_fqdn root (ir_interface orig) (hr_name h))))
               (records s)
           \<and> hosts s' = hosts s \<and> ipaddresses s' = ipaddresses s \<and> domains s' = domains s"
proof -
  let ?s' = "snd (remove_dns root self s)"
  note res = remove_dns_stored_result [OF assms, of root]
  have ok: "remove_dns root self s = (Inr (), ?s')"
    using res(1) by (cases "remove_dns root self s") simp
  show ?thesis
    apply (rule exI [of _ ?s'])
    apply (rule conjI [OF ok])
    apply (rule conjI)
     apply (subst res(2))
     apply (simp only: forward_filter_def cname_filter_def ptr_filter_def iexact_def)
    apply (simp only: res(3) res(4) res(5))
    done
qed

theorem remove_dns_deletes_exactly_witness:
  "fst (remove_dns ex_root (ex_new\<lparr>pk := Some 1\<rparr>) ex_stored) = Inr ()
   \<and> records (snd (remove_dns ex_root (ex_new\<lparr>pk := Some 1\<rparr>) ex_stored)) =
       filter (\<lambda>r. r \<noteq> ex_rec_a \<and> r \<noteq> ex_rec_ptr) (records ex_stored)"
proof -
  have p: "pk (ex_new\<lparr>pk := Some 1\<rparr>) = Some 1" by simp
  from remove_dns_deletes_exactly [OF p ex_get_row ex_get_host, of ex_root]
  obtain s' where r: "remove_dns ex_root (ex_new\<lparr>pk := Some 1\<rparr>) ex_stored = (Inr (), s')"
    and "records s' = filter (\<lambda>r.
                 \<not> (lower (r_name r) = lower (IPAddress_fqdn ex_root (ir_interface ex_row) (hr_name \<lparr>hr_pk = 1, hr_name = ''foo''\<rparr>))
                    \<and> r_type r \<in> {''A'', ''AAAA''}
                    \<and> r_content r = str_ip (ir_ip ex_row))
               \<and> \<not> (ir_primary ex_row
                    \<and> lower (r_name r) = lower (Host_fqdn ex_root (hr_name \<lparr>hr_pk = 1, hr_name = ''foo''\<rparr>))
                    \<and> r_type r = ''CNAME''
                    \<and> lower (r_content r) = lower (IPAddress_fqdn ex_root (ir_interface ex_row) (hr_name \<lparr>hr_pk = 1, hr_name = ''foo''\<rparr>)))
               \<and> \<not> (r_name r = generate_ptr (ir_ip ex_row) False
                    \<and> r_type r = ''PTR''
                    \<and> lower (r_content r) = lower (IPAddress_fqdn ex_root (ir_interface ex_row) (hr_name \<lparr>hr_pk = 1, hr_name = ''foo''\<rparr>))))
               (records ex_stored)"
    by blast
  then have "records s' = filter (\<lambda>r. r \<noteq> ex_rec_a \<and> r \<noteq> ex_rec_ptr) (records ex_stored)"
    by (simp add: ex_stored_def ex_row_def ex_str ex_ptr_host IPAddress_fqdn_def truthy_str_def
        ex_root_def ex_rec_a_def ex_rec_ptr_def ex_rec_other_def ex_rec_upper_def lower_char_def)
  with r show ?thesis by simp
qed

text \<open>
  Claim C3, as stated, asks for names to be matched without regard to case, the PTR name
  included. In the example database the PTR record named \<open>5.0.0.10.IN-ADDR.ARPA\<close>, whose
  content is the assignment's FQDN, is still there after \<open>_remove_dns\<close>.
\<close>

theorem remove_dns_ptr_name_case_counterexample:
  "ex_rec_upper \<in> set (records (snd (remove_dns ex_root (ex_new\<lparr>pk := Some 1\<rparr>) ex_stored)))
   \<and> lower (r_name ex_rec_upper) = lower (generate_ptr (ir_ip ex_row) False)
   \<and> r_type ex_rec_upper = ''PTR''
   \<and> lower (r_content ex_rec_upper) = lower (IPAddress_fqdn ex_root (ir_interface ex_row) ''foo'')"
proof -
  have "ex_rec_upper \<in> set (records (snd (remove_dns ex_root (ex_new\<lparr>pk := Some 1\<rparr>) ex_stored)))"
    unfolding ex_remove(2) by simp
  moreover have "lower (r_name ex_rec_upper) = lower (generate_ptr (ir_ip ex_row) False)
     \<and> r_type ex_rec_upper = ''PTR''
     \<and> lower (r_content ex_rec_upper) = lower (IPAddress_fqdn ex_root (ir_interface ex_row) ''foo'')"
    by (simp add: ex_rec_upper_def ex_row_def ex_ptr_host lower_char_def
        IPAddress_fqdn_def truthy_str_def ex_root_def)
  ultimately show ?thesis by simp
qed

section \<open>Atomicity\<close>

text \<open>
  Claim C2. When saving an assignment (a create, or an update, which deletes and
  recreates) or deleting it raises, the database afterwards is the database before: no
  record created or removed, the assignment row as it was. For the deletion this holds
  of its steps themselves, which can only fail before the first write.
\<close>

theorem assignment_operations_atomic:
  "(IPAddress_save root self s = (Inl e, s') \<longrightarrow> s' = s)
   \<and> (IPAddress_delete root self s = (Inl e, s') \<longrightarrow> s' = s)
   \<and> (delete_steps root self p s = (Inl e, s') \<longrightarrow> s' = s)"
proof (intro conjI impI)
  assume "IPAddress_save root self s = (Inl e, s')"
  then show "s' = s" unfolding IPAddress_save_def by (rule atomic_fail_state)
next
  assume "IPAddress_delete root self s = (Inl e, s')"
  then show "s' = s"
    by (cases "pk self") (auto simp: IPAddress_delete_def raiseM_def dest: atomic_fail_state)
next
  assume a: "delete_steps root self p s = (Inl e, s')"
  show "s' = s"
  proof (cases "truthy_bool (auto_dns self)")
    case False
    with a show ?thesis
      by (simp add: delete_steps_def remote_dns_hook_def delete_ipaddress_row_def)
  next
    case True
    obtain r1 s1 where r: "remove_dns root self s = (r1, s1)" by (cases "remove_dns root self s")
    show ?thesis
    proof (cases r1)
      case (Inl e1)
      with r a True have "s' = s1"
        by (simp add: delete_steps_def remote_dns_hook_def thenM_Inl)
      moreover from r Inl have "s1 = s" by (auto dest: remove_dns_fail_state)
      ultimately show ?thesis by simp
    next
      case (Inr u)
      with r a True show ?thesis
        by (simp add: delete_steps_def remote_dns_hook_def thenM_Inr delete_ipaddress_row_def)
    qed
  qed
qed

text \<open>
  The store rejects a second assignment of 10.0.0.5: the steps of the save had already
  written a forward record and patched the PTR record, and the save leaves none of it.
\<close>

theorem assignment_operations_atomic_witness:
  "IPAddress_save ex_root ex_dup ex_stored = (Inl IntegrityError, ex_stored)
   \<and> records (snd (save_steps ex_root ex_dup ex_stored)) \<noteq> records ex_stored"
proof -
  have "fst (IPAddress_save ex_root ex_dup ex_stored) = Inl IntegrityError"
    using ex_dup_steps(1)
    by (cases "save_steps ex_root ex_dup ex_stored") (simp add: IPAddress_save_def atomic_def)
  then have f: "IPAddress_save ex_root ex_dup ex_stored =
      (Inl IntegrityError, snd (IPAddress_save ex_root ex_dup ex_stored))"
    by (cases "IPAddress_save ex_root ex_dup ex_stored") simp
  with assignment_operations_atomic
    [of ex_root ex_dup ex_stored IntegrityError "snd (IPAddress_save ex_root ex_dup ex_stored)"]
  have "snd (IPAddress_save ex_root ex_dup ex_stored) = ex_stored" by blast
  moreover have "records (snd (save_steps ex_root ex_dup ex_stored)) \<noteq> records ex_stored"
    unfolding ex_dup_steps(2) by (simp add: ex_stored_def)
  ultimately show ?thesis using f by simp
qed

section \<open>Deletion\<close>

text \<open>
  Claim C7. Deleting an assignment runs \<open>_remove_dns\<close> exactly when the \<open>auto_dns\<close> flag
  of the deleted instance is set. With the flag unset only the assignment row goes and
  the record table is as before; with it set the deletion is \<open>_remove_dns\<close> followed by
  the deletion of the row. Deleting a host does the same for each of its assignments:
  \<open>_remove_dns\<close> runs for those whose flag is set and for no other, and when none has
  the flag set the record table is as before.
\<close>

theorem delete_removes_dns_iff_auto_dns:
  "(pk self = Some p \<and> \<not> truthy_bool (auto_dns self) \<longrightarrow>
      IPAddress_delete root self s =
        (Inr (), s\<lparr>ipaddresses := filter (\<lambda>a. ir_pk a \<noteq> p) (ipaddresses s)\<rparr>))
   \<and> (pk self = Some p \<and> truthy_bool (auto_dns self) \<longrightarrow>
      IPAddress_delete root self =
        atomic (thenM (remove_dns root self) (delete_ipaddress_row p)))
   \<and> (h_pk h = Some q \<longrightarrow>
      Host_delete root h s =
        atomic (bindM (Host_ipaddresses h) (\<lambda>ips.
                thenM (forM (filter (\<lambda>a. truthy_bool (auto_dns a)) ips) (remove_dns root))
                      (\<lambda>s. (Inr (), s\<lparr>ipaddresses := filter (\<lambda>a. ir_host_id a \<noteq> q) (ipaddresses s),
                                      hosts := filter (\<lambda>h. hr_pk h \<noteq> q) (hosts s)\<rparr>)))) s)
   \<and> (h_pk h = Some q
       \<and> (\<forall>a \<in> set (ipaddresses s). ir_host_id a = q \<longrightarrow> \<not> truthy_bool (ir_auto_dns a)) \<longrightarrow>
      Host_delete root h s =
        (Inr (), s\<lparr>ipaddresses := filter (\<lambda>a. ir_host_id a \<noteq> q) (ipaddresses s),
                   hosts := filter (\<lambda>h. hr_pk h \<noteq> q) (hosts s)\<rparr>))"
proof (intro conjI impI)
  assume "pk self = Some p \<and> \<not> truthy_bool (auto_dns self)"
  then show "IPAddress_delete root self s =
        (Inr (), s\<lparr>ipaddresses := filter (\<lambda>a. ir_pk a \<noteq> p) (ipaddresses s)\<rparr>)"
    by (simp add: IPAddress_delete_def delete_steps_def remote_dns_hook_def atomic_def
        delete_ipaddress_row_def)
next
  assume "pk self = Some p \<and> truthy_bool (auto_dns self)"
  then show "IPAddress_delete root self =
        atomic (thenM (remove_dns root self) (delete_ipaddress_row p))"
    by (simp add: IPAddress_delete_def delete_steps_def remote_dns_hook_def)
next
  assume "h_pk h = Some q"
  then show "Host_delete root h s =
        atomic (bindM (Host_ipaddresses h) (\<lambda>ips.
                thenM (forM (filter (\<lambda>a. truthy_bool (auto_dns a)) ips) (remove_dns root))
                      (\<lambda>s. (Inr (), s\<lparr>ipaddresses := filter (\<lambda>a. ir_host_id a \<noteq> q) (ipaddresses s),
                                      hosts := filter (\<lambda>h. hr_pk h \<noteq> q) (hosts s)\<rparr>)))) s"
    by (simp add: Host_delete_def forM_hook_filter)
next
  assume a: "h_pk h = Some q
       \<and> (\<forall>a \<in> set (ipaddresses s). ir_host_id a = q \<longrightarrow> \<not> truthy_bool (ir_auto_dns a))"
  let ?ips = "map (instance_of_row h)
                  (sort_key (\<lambda>a. ip_key (ir_ip a))
                     (filter (\<lambda>a. ir_host_id a = q) (ipaddresses s)))"
  have ips: "Host_ipaddresses h s = (Inr ?ips, s)"
    using a by (simp add: Host_ipaddresses_def)
  have "forM ?ips (remote_dns_hook root) = returnM ()"
  proof (rule forM_noop)
    fix x assume "x \<in> set ?ips"
    then obtain r where "r \<in> set (ipaddresses s)" "ir_host_id r = q" "x = instance_of_row h r"
      by auto
    with a have "\<not> truthy_bool (auto_dns x)" by (simp add: instance_of_row_def)
    then show "remote_dns_hook root x = returnM ()" by (simp add: remote_dns_hook_def)
  qed
  with a ips show "Host_delete root h s =
        (Inr (), s\<lparr>ipaddresses := filter (\<lambda>a. ir_host_id a \<noteq> q) (ipaddresses s),
                   hosts := filter (\<lambda>h. hr_pk h \<noteq> q) (hosts s)\<rparr>)"
    by (simp add: Host_delete_def bindM_Inr atomic_def)
qed


theorem delete_removes_dns_iff_auto_dns_witness:
  "IPAddress_delete ex_root (ex_new\<lparr>pk := Some 1, auto_dns := Some False\<rparr>) ex_stored =
     (Inr (), ex_stored\<lparr>ipaddresses := []\<rparr>)
   \<and> IPAddress_delete ex_root (ex_new\<lparr>pk := Some 1\<rparr>) =
       atomic (thenM (remove_dns ex_root (ex_new\<lparr>pk := Some 1\<rparr>)) (delete_ipaddress_row 1))
   \<and> Host_delete ex_root ex_foo ex_manual =
       (Inr (), ex_manual\<lparr>ipaddresses := [], hosts := []\<rparr>)"
proof -
  have a: "pk (ex_new\<lparr>pk := Some 1, auto_dns := Some False\<rparr>) = Some 1
      \<and> \<not> truthy_bool (auto_dns (ex_new\<lparr>pk := Some 1, auto_dns := Some False\<rparr>))"
    by (simp add: truthy_bool_def)
  have b: "pk (ex_new\<lparr>pk := Some 1\<rparr>) = Some 1 \<and> truthy_bool (auto_dns (ex_new\<lparr>pk := Some 1\<rparr>))"
    by (simp add: truthy_bool_def ex_new_def)
  have c: "h_pk ex_foo = Some 1
       \<and> (\<forall>a \<in> set (ipaddresses ex_manual). ir_host_id a = 1 \<longrightarrow> \<not> truthy_bool (ir_auto_dns a))"
    by (simp add: ex_foo_def ex_manual_def truthy_bool_def)
  have "IPAddress_delete ex_root (ex_new\<lparr>pk := Some 1, auto_dns := Some False\<rparr>) ex_stored =
     (Inr (), ex_stored\<lparr>ipaddresses := filter (\<lambda>a. ir_pk a \<noteq> 1) (ipaddresses ex_stored)\<rparr>)"
    using a delete_removes_dns_iff_auto_dns
      [where self = "ex_new\<lparr>pk := Some 1, auto_dns := Some False\<rparr>" and p = 1
         and root = ex_root and s = ex_stored]
    by blast
  moreover have "IPAddress_delete ex_root (ex_new\<lparr>pk := Some 1\<rparr>) =
       atomic (thenM (remove_dns ex_root (ex_new\<lparr>pk := Some 1\<rparr>)) (delete_ipaddress_row 1))"
    using b delete_removes_dns_iff_auto_dns
      [where self = "ex_new\<lparr>pk := Some 1\<rparr>" and p = 1 and root = ex_root]
    by blast
  moreover have "Host_delete ex_root ex_foo ex_manual =
       (Inr (), ex_manual\<lparr>ipaddresses := filter (\<lambda>a. ir_host_id a \<noteq> 1) (ipaddresses ex_manual),
                         hosts := filter (\<lambda>h. hr_pk h \<noteq> 1) (hosts ex_manual)\<rparr>)"
    using c delete_removes_dns_iff_auto_dns
      [where root = ex_root and h = ex_foo and q = 1 and s = ex_manual]
    by blast
  ultimately show ?thesis
    by (simp add: ex_stored_def ex_manual_def ex_row_def)
qed


section \<open>Reverse names\<close>

text \<open>
  Claim C8. For the IPv4 address \<open>w.x.y.z\<close> (the four octets of the address, in decimal)
  the reverse name is \<open>z.y.x.w.in-addr.arpa\<close> in host form and \<open>y.x.w.in-addr.arpa\<close> at
  the domain boundary. For an IPv6 address it is the 32 nibbles of the exploded form,
  lowest first, joined by dots and followed by \<open>.ip6.arpa\<close>; at the domain boundary the
  20 lowest nibbles are left out and nibbles 20 to 31 remain.
\<close>

theorem generate_ptr_names:
  "generate_ptr (IPv4Address a) False =
     str_nat (unat (a AND 255)) @ ''.'' @ str_nat (unat (drop_bit 8 a AND 255)) @ ''.''
       @ str_nat (unat (drop_bit 16 a AND 255)) @ ''.'' @ str_nat (unat (drop_bit 24 a AND 255))
       @ ''.in-addr.arpa''
   \<and> generate_ptr (IPv4Address a) True =
     str_nat (unat (drop_bit 8 a AND 255)) @ ''.''
       @ str_nat (unat (drop_bit 16 a AND 255)) @ ''.'' @ str_nat (unat (drop_bit 24 a AND 255))
       @ ''.in-addr.arpa''
   \<and> str_ip (IPv4Address a) =
     str_nat (unat (drop_bit 24 a AND 255)) @ ''.'' @ str_nat (unat (drop_bit 16 a AND 255)) @ ''.''
       @ str_nat (unat (drop_bit 8 a AND 255)) @ ''.'' @ str_nat (unat (a AND 255))
   \<and> generate_ptr (IPv6Address b) False =
     join ''.'' (map (\<lambda>i. [digit_char (unat (drop_bit (4 * i) b AND 15))]) [0..<32]) @ ''.ip6.arpa''
   \<and> generate_ptr (IPv6Address b) True =
     join ''.'' (map (\<lambda>i. [digit_char (unat (drop_bit (4 * i) b AND 15))]) [20..<32]) @ ''.ip6.arpa''
   \<and> filter (\<lambda>c. c \<noteq> CHR '':'') (exploded b) =
     map (\<lambda>i. digit_char (unat (drop_bit (4 * i) b AND 15))) (rev [0..<32])"
proof (intro conjI)
  show "generate_ptr (IPv4Address a) False =
     str_nat (unat (a AND 255)) @ ''.'' @ str_nat (unat (drop_bit 8 a AND 255)) @ ''.''
       @ str_nat (unat (drop_bit 16 a AND 255)) @ ''.'' @ str_nat (unat (drop_bit 24 a AND 255))
       @ ''.in-addr.arpa''"
    by (simp add: generate_ptr_def version_def str_ipv4_split) (simp add: octets_def)
  show "generate_ptr (IPv4Address a) True =
     str_nat (unat (drop_bit 8 a AND 255)) @ ''.''
       @ str_nat (unat (drop_bit 16 a AND 255)) @ ''.'' @ str_nat (unat (drop_bit 24 a AND 255))
       @ ''.in-addr.arpa''"
    by (simp add: generate_ptr_def version_def str_ipv4_split) (simp add: octets_def)
  show "str_ip (IPv4Address a) =
     str_nat (unat (drop_bit 24 a AND 255)) @ ''.'' @ str_nat (unat (drop_bit 16 a AND 255)) @ ''.''
       @ str_nat (unat (drop_bit 8 a AND 255)) @ ''.'' @ str_nat (unat (a AND 255))"
    by (simp add: str_ip_def str_ipv4_def octets_def)
  have drop20: "drop 20 [0..<32] = [20..<32]"
    by (simp add: drop_upt)
  show "generate_ptr (IPv6Address b) False =
     join ''.'' (map (\<lambda>i. [digit_char (unat (drop_bit (4 * i) b AND 15))]) [0..<32]) @ ''.ip6.arpa''"
    by (simp add: generate_ptr_def version_def exploded_nibbles rev_hex_str32 comp_def
        del: upt_rec_numeral)
  show "generate_ptr (IPv6Address b) True =
     join ''.'' (map (\<lambda>i. [digit_char (unat (drop_bit (4 * i) b AND 15))]) [20..<32]) @ ''.ip6.arpa''"
    by (simp add: generate_ptr_def version_def exploded_nibbles rev_hex_str32 comp_def
        drop_map drop20 del: upt_rec_numeral)
  show "filter (\<lambda>c. c \<noteq> CHR '':'') (exploded b) =
     map (\<lambda>i. digit_char (unat (drop_bit (4 * i) b AND 15))) (rev [0..<32])"
    by (simp add: exploded_nibbles hex_str32_def del: upt_rec_numeral)
qed


theorem generate_ptr_names_witness:
  "generate_ptr (IPv4Address 0x0A000005) False = ''5.0.0.10.in-addr.arpa''
   \<and> generate_ptr (IPv4Address 0x0A000005) True = ''0.0.10.in-addr.arpa''
   \<and> str_ip (IPv4Address 0x0A000005) = ''10.0.0.5''"
  using generate_ptr_names [where a = "0x0A000005"]
  by (simp add: str_nat.simps digit_char_def)


section \<open>Creating an assignment\<close>

text \<open>
  Claim C4, as the code has it. Saving a new assignment of 10.0.0.5 to the stored host
  \<open>foo\<close>, without interface and with \<open>auto_dns\<close> set, under the root domain
  \<open>example.com\<close>, when the zones \<open>example.com\<close> and \<open>0.0.10.in-addr.arpa\<close> exist, the
  address is free and neither record is stored yet, succeeds and adds exactly two
  records: the authoritative A record \<open>foo.example.com\<close> with content \<open>10.0.0.5\<close> in the
  root zone, and the PTR record \<open>5.0.0.10.in-addr.arpa\<close> with content \<open>foo.example.com\<close>
  (no trailing dot) in the reverse zone. The assignment row is added and nothing else
  changes.
\<close>

theorem create_assignment_records:
  assumes self: "self = \<lparr>pk = None, host = \<lparr>h_pk = Some hid, h_name = ''foo''\<rparr>,
                         interface = None, ip = IPv4Address 0x0A000005,
                         auto_dns = Some True, primary = prim\<rparr>"
    and host_stored: "hid \<in> set (map hr_pk (hosts s))"
    and address_free: "\<forall>a \<in> set (ipaddresses s). ir_ip a \<noteq> IPv4Address 0x0A000005"
    and root_zone: "filter (\<lambda>d. d_name d = ''example.com'') (domains s) = [dr]"
    and reverse_zone: "filter (\<lambda>d. d_name d = ''0.0.10.in-addr.arpa'') (domains s) = [dz]"
    and no_forward: "\<forall>r \<in> set (records s).
        \<not> (r_domain r = d_id dr \<and> r_name r = ''foo.example.com'' \<and> r_type r = ''A''
           \<and> r_content r = ''10.0.0.5'')"
    and no_ptr: "\<forall>r \<in> set (records s).
        \<not> (r_domain r = d_id dz \<and> r_name r = ''5.0.0.10.in-addr.arpa'' \<and> r_type r = ''PTR'')"
  shows "\<exists>s'. IPAddress_save ''example.com'' self s = (Inr (), s')
           \<and> records s' = records s @
               [\<lparr>r_id = fresh (map r_id (records s)), r_domain = d_id dr,
                 r_name = ''foo.example.com'', r_type = ''A'', r_content = ''10.0.0.5'',
                 r_auth = True\<rparr>,
                \<lparr>r_id = fresh (map r_id (records s) @ [fresh (map r_id (records s))]),
                 r_domain = d_id dz, r_name = ''5.0.0.10.in-addr.arpa'', r_type = ''PTR'',
                 r_content = ''foo.example.com'', r_auth = True\<rparr>]
           \<and> ipaddresses s' = ipaddresses s @
               [\<lparr>ir_pk = fresh (map ir_pk (ipaddresses s)), ir_host_id = hid,
                 ir_interface = None, ir_ip = IPv4Address 0x0A000005,
                 ir_auto_dns = Some True, ir_primary = prim\<rparr>]
           \<and> hosts s' = hosts s \<and> domains s' = domains s"
proof -
  let ?root = "''example.com''"
  let ?a = "\<lparr>r_id = fresh (map r_id (records s)), r_domain = d_id dr,
                 r_name = ''foo.example.com'', r_type = ''A'', r_content = ''10.0.0.5'',
                 r_auth = True\<rparr>"
  let ?p = "\<lparr>r_id = fresh (map r_id (records s) @ [fresh (map r_id (records s))]),
                 r_domain = d_id dz, r_name = ''5.0.0.10.in-addr.arpa'', r_type = ''PTR'',
                 r_content = ''foo.example.com'', r_auth = True\<rparr>"
  have fq: "lower (self_fqdn ?root self) = ''foo.example.com''"
    by (simp add: self self_fqdn_def IPAddress_fqdn_def truthy_str_def lower_char_def)
  have ipv: "ip self = IPv4Address 0x0A000005" "version (ip self) = 4"
    by (simp_all add: self version_def)
  have fr: "(forward_record ?root self dr)\<lparr>r_id := fresh (map r_id (records s))\<rparr> = ?a"
    by (simp add: forward_record_def fq ipv version_def ex_str)
  let ?s1 = "write_records (records s @ [?a]) (write_records (records s @ [?a]) s)"
  have fwd: "add_forward ?root self s = (Inr (), ?s1)"
    using add_forward_new [of ?root s dr self] root_zone no_forward
    by (simp add: fq ipv version_def ex_str fr)
  have zone: "find_ptr_zone self ?s1 = (Inr (Some dz), ?s1)"
    by (rule find_ptr_zone_exact) (simp add: ipv ex_ptr_zone reverse_zone)
  have pr: "(ptr_record ?root self dz)\<lparr>r_id := fresh (map r_id (records ?s1))\<rparr> = ?p"
    by (simp add: ptr_record_def fq ipv ex_ptr_host)
  let ?s2 = "write_records (records s @ [?a, ?p]) (write_records (records s @ [?a, ?p]) ?s1)"
  have np: "\<forall>r \<in> set (records ?s1).
      \<not> (r_domain r = d_id dz \<and> r_name r = generate_ptr (ip self) False \<and> r_type r = ''PTR'')"
    using no_ptr by (auto simp: ipv ex_ptr_host)
  have ptr: "add_ptr ?root self ?s1 = (Inr (), ?s2)"
    using add_ptr_new [OF zone np, of ?root] unfolding pr by simp
  have cname: "add_cname ?root self = returnM ()"
    by (simp add: add_cname_def self truthy_str_def)
  have chk: "add_rename_check ?root self = returnM ()"
    by (simp add: add_rename_check_def self truthy_pk_def)
  have dns: "add_dns ?root self s = (Inr (), ?s2)"
    by (simp add: add_dns_def chk cname thenM_def bindM_def fwd ptr returnM_def)
  have ins: "IPAddress_base_save self ?s2 =
     (Inr (), ?s2\<lparr>ipaddresses := ipaddresses ?s2 @
        [\<lparr>ir_pk = fresh (map ir_pk (ipaddresses ?s2)), ir_host_id = hid,
          ir_interface = interface self, ir_ip = ip self, ir_auto_dns = auto_dns self,
          ir_primary = primary self\<rparr>]\<rparr>)"
    using host_stored address_free
    by (intro IPAddress_base_save_insert) (simp_all add: self)
  have steps: "save_steps ?root self s =
     (Inr (), ?s2\<lparr>ipaddresses := ipaddresses s @
        [\<lparr>ir_pk = fresh (map ir_pk (ipaddresses s)), ir_host_id = hid,
          ir_interface = None, ir_ip = IPv4Address 0x0A000005, ir_auto_dns = Some True,
          ir_primary = prim\<rparr>]\<rparr>)"
  proof -
    have "save_steps ?root self s = thenM (add_dns ?root self) (IPAddress_base_save self) s"
      by (simp add: save_steps_def self truthy_pk_def truthy_bool_def)
    also have "\<dots> = IPAddress_base_save self ?s2"
      by (simp add: thenM_def bindM_def dns)
    also note ins
    finally show ?thesis by (simp add: self)
  qed
  show ?thesis
    unfolding IPAddress_save_def atomic_def steps by simp
qed



theorem create_assignment_records_witness:
  "fst (IPAddress_save ''example.com'' ex_new ex_empty) = Inr ()
   \<and> records (snd (IPAddress_save ''example.com'' ex_new ex_empty)) = [ex_rec_a, ex_rec_ptr]
   \<and> ipaddresses (snd (IPAddress_save ''example.com'' ex_new ex_empty)) = [ex_row]"
proof -
  have 1: "ex_new = \<lparr>pk = None, host = \<lparr>h_pk = Some 1, h_name = ''foo''\<rparr>,
                         interface = None, ip = IPv4Address 0x0A000005,
                         auto_dns = Some True, primary = False\<rparr>"
    by (simp add: ex_new_def ex_foo_def)
  have 2: "1 \<in> set (map hr_pk (hosts ex_empty))" by (simp add: ex_empty_def)
  have 3: "\<forall>a \<in> set (ipaddresses ex_empty). ir_ip a \<noteq> IPv4Address 0x0A000005"
    by (simp add: ex_empty_def)
  have 4: "filter (\<lambda>d. d_name d = ''example.com'') (domains ex_empty) =
      [\<lparr>d_id = 1, d_name = ''example.com''\<rparr>]"
    by (simp add: ex_empty_def ex_zones_def)
  have 5: "filter (\<lambda>d. d_name d = ''0.0.10.in-addr.arpa'') (domains ex_empty) =
      [\<lparr>d_id = 2, d_name = ''0.0.10.in-addr.arpa''\<rparr>]"
    by (simp add: ex_empty_def ex_zones_def)
  have 6: "\<forall>r \<in> set (records ex_empty).
        \<not> (r_domain r = d_id \<lparr>d_id = 1, d_name = ''example.com''\<rparr>
           \<and> r_name r = ''foo.example.com'' \<and> r_type r = ''A''
           \<and> r_content r = ''10.0.0.5'')"
    by (simp add: ex_empty_def)
  have 7: "\<forall>r \<in> set (records ex_empty).
        \<not> (r_domain r = d_id \<lparr>d_id = 2, d_name = ''0.0.10.in-addr.arpa''\<rparr>
           \<and> r_name r = ''5.0.0.10.in-addr.arpa'' \<and> r_type r = ''PTR'')"
    by (simp add: ex_empty_def)
  from create_assignment_records [OF 1 2 3 4 5 6 7]
  obtain s' where "IPAddress_save ''example.com'' ex_new ex_empty = (Inr (), s')"
    and "records s' = records ex_empty @
               [\<lparr>r_id = fresh (map r_id (records ex_empty)),
                 r_domain = d_id \<lparr>d_id = 1, d_name = ''example.com''\<rparr>,
                 r_name = ''foo.example.com'', r_type = ''A'', r_content = ''10.0.0.5'',
                 r_auth = True\<rparr>,
                \<lparr>r_id = fresh (map r_id (records ex_empty) @ [fresh (map r_id (records ex_empty))]),
                 r_domain = d_id \<lparr>d_id = 2, d_name = ''0.0.10.in-addr.arpa''\<rparr>,
                 r_name = ''5.0.0.10.in-addr.arpa'', r_type = ''PTR'',
                 r_content = ''foo.example.com'', r_auth = True\<rparr>]"
    and "ipaddresses s' = ipaddresses ex_empty @
               [\<lparr>ir_pk = fresh (map ir_pk (ipaddresses ex_empty)), ir_host_id = 1,
                 ir_interface = None, ir_ip = IPv4Address 0x0A000005,
                 ir_auto_dns = Some True, ir_primary = False\<rparr>]"
    by blast
  then show ?thesis
    by (simp add: ex_empty_def fresh_def ex_rec_a_def ex_rec_ptr_def ex_row_def)
qed

text \<open>
  Claim C4, as stated, gives the PTR record the content \<open>foo.example.com.\<close> with a
  trailing dot. The save stores exactly the two example records, and no stored record
  has that content.
\<close>

theorem create_assignment_ptr_content_counterexample:
  "records (snd (IPAddress_save ''example.com'' ex_new ex_empty)) = [ex_rec_a, ex_rec_ptr]
   \<and> r_content ex_rec_a \<noteq> ''foo.example.com.''
   \<and> r_content ex_rec_ptr \<noteq> ''foo.example.com.''"
proof -
  have "records (snd (IPAddress_save ''example.com'' ex_new ex_empty)) = [ex_rec_a, ex_rec_ptr]"
    by (simp add: ex_create)
  then show ?thesis by (simp add: ex_rec_a_def ex_rec_ptr_def)
qed

section \<open>The zone of the PTR record\<close>

text \<open>
  Claim C5. When no zone is named by the boundary-form reverse name, the lookup is
  repeated once, for that name with its first label removed; the zone found there
  becomes the PTR zone. When that lookup finds no zone either, the PTR step returns
  normally and writes nothing; the forward record that the preceding step stored is in
  the table, and the rest of \<open>_add_dns\<close> is the CNAME step alone, so that an assignment
  that needs no CNAME is processed without error.
\<close>

theorem ptr_zone_fallback:
  assumes "filter (\<lambda>d. d_name d = generate_ptr (ip self) True) (domains s) = []"
  shows "find_ptr_zone self s =
           (case filter (\<lambda>d. d_name d = tl (dropWhile (\<lambda>c. c \<noteq> CHR ''.'') (generate_ptr (ip self) True)))
                   (domains s) of
              [] \<Rightarrow> (Inr None, s)
            | [d] \<Rightarrow> (Inr (Some d), s)
            | _ # _ # _ \<Rightarrow> (Inl MultipleObjectsReturned, s))
       \<and> (filter (\<lambda>d. d_name d = tl (dropWhile (\<lambda>c. c \<noteq> CHR ''.'') (generate_ptr (ip self) True)))
             (domains s) = [] \<longrightarrow>
            add_ptr root self s = (Inr (), s))
       \<and> (filter (\<lambda>d. d_name d = tl (dropWhile (\<lambda>c. c \<noteq> CHR ''.'') (generate_ptr (ip self) True)))
             (domains s) = []
          \<and> add_rename_check root self s = (Inr (), sa)
          \<and> add_forward root self sa = (Inr (), sb) \<longrightarrow>
            add_dns root self s = add_cname root self sb
          \<and> (\<not> (primary self \<and> truthy_str (interface self)) \<longrightarrow>
               add_dns root self s = (Inr (), sb))
          \<and> (\<exists>r \<in> set (records sb). r_name r = lower (self_fqdn root self)
               \<and> r_type r = (if version (ip self) = 6 then ''AAAA'' else ''A'')
               \<and> r_content r = str_ip (ip self)))"
proof (intro conjI impI)
  let ?z = "tl (dropWhile (\<lambda>c. c \<noteq> CHR ''.'') (generate_ptr (ip self) True))"
  show "find_ptr_zone self s =
           (case filter (\<lambda>d. d_name d = ?z) (domains s) of
              [] \<Rightarrow> (Inr None, s)
            | [d] \<Rightarrow> (Inr (Some d), s)
            | _ # _ # _ \<Rightarrow> (Inl MultipleObjectsReturned, s))"
    by (rule find_ptr_zone_fallback [OF assms])
  {
    assume "filter (\<lambda>d. d_name d = ?z) (domains s) = []"
    then have "find_ptr_zone self s = (Inr None, s)"
      by (simp add: find_ptr_zone_fallback [OF assms])
    then show "add_ptr root self s = (Inr (), s)" by (rule add_ptr_skip)
  }
  {
    assume a: "filter (\<lambda>d. d_name d = ?z) (domains s) = []
          \<and> add_rename_check root self s = (Inr (), sa)
          \<and> add_forward root self sa = (Inr (), sb)"
    have "same_tables s sa" using add_rename_check_same_tables [of s root self] a by simp
    moreover have "same_tables sa sb" using add_forward_same_tables [of sa root self] a by simp
    ultimately have d: "domains sb = domains s" by (simp add: same_tables_def)
    have "find_ptr_zone self sb = (Inr None, sb)"
      using a assms by (simp add: find_ptr_zone_fallback d)
    then have p: "add_ptr root self sb = (Inr (), sb)" by (rule add_ptr_skip)
    show 1: "add_dns root self s = add_cname root self sb"
      using a p by (simp add: add_dns_def thenM_def bindM_def)
    show "add_dns root self s = (Inr (), sb)" if "\<not> (primary self \<and> truthy_str (interface self))"
      using that 1 by (auto simp: add_cname_def returnM_def)
    show "\<exists>r \<in> set (records sb). r_name r = lower (self_fqdn root self)
               \<and> r_type r = (if version (ip self) = 6 then ''AAAA'' else ''A'')
               \<and> r_content r = str_ip (ip self)"
      using a add_forward_exists [of root self sa sb] by blast
  }
qed


theorem ptr_zone_fallback_witness:
  "find_ptr_zone ex_new ex_wide = (Inr (Some \<lparr>d_id = 3, d_name = ''0.10.in-addr.arpa''\<rparr>), ex_wide)
   \<and> add_ptr ex_root ex_new ex_nozone = (Inr (), ex_nozone)
   \<and> fst (add_dns ex_root ex_new ex_nozone) = Inr ()
   \<and> records (snd (add_dns ex_root ex_new ex_nozone)) = [ex_rec_a]"
proof -
  have ipn: "ip ex_new = IPv4Address 0x0A000005" by (simp add: ex_new_def)
  have w: "filter (\<lambda>d. d_name d = generate_ptr (ip ex_new) True) (domains ex_wide) = []"
    by (simp add: ipn ex_ptr_zone ex_wide_def)
  have n: "filter (\<lambda>d. d_name d = generate_ptr (ip ex_new) True) (domains ex_nozone) = []"
    by (simp add: ipn ex_ptr_zone ex_nozone_def)
  have st: "tl (dropWhile (\<lambda>c. c \<noteq> CHR ''.'') (generate_ptr (ip ex_new) True)) = ''0.10.in-addr.arpa''"
    by (simp add: ipn ex_ptr_zone)
  have n2: "filter (\<lambda>d. d_name d = tl (dropWhile (\<lambda>c. c \<noteq> CHR ''.'') (generate_ptr (ip ex_new) True)))
             (domains ex_nozone) = []"
    unfolding st by (simp add: ex_nozone_def)
  have chk: "add_rename_check ex_root ex_new ex_nozone = (Inr (), ex_nozone)"
    by (simp add: add_rename_check_def ex_new_def truthy_pk_def returnM_def)
  have fwd: "add_forward ex_root ex_new ex_nozone = (Inr (), snd (add_forward ex_root ex_new ex_nozone))"
    using ex_forward(1) by (cases "add_forward ex_root ex_new ex_nozone") simp
  have nc: "\<not> (primary ex_new \<and> truthy_str (interface ex_new))"
    by (simp add: ex_new_def)
  have "find_ptr_zone ex_new ex_wide =
      (Inr (Some \<lparr>d_id = 3, d_name = ''0.10.in-addr.arpa''\<rparr>), ex_wide)"
    using ptr_zone_fallback [OF w, of ex_root] unfolding st by (simp add: ex_wide_def)
  moreover have "add_ptr ex_root ex_new ex_nozone = (Inr (), ex_nozone)"
    using ptr_zone_fallback [OF n, of ex_root] n2 by blast
  moreover have "add_dns ex_root ex_new ex_nozone = (Inr (), snd (add_forward ex_root ex_new ex_nozone))"
    using ptr_zone_fallback [OF n, of ex_root ex_nozone "snd (add_forward ex_root ex_new ex_nozone)"]
      n2 chk fwd nc by blast
  ultimately show ?thesis by (simp add: ex_forward(2))
qed

end
